theory Spec2Isabelle
  imports Main "HOL-Library.Sublist"
begin

section \<open>The signing command of eng/\_util/cmd/sign/sign.go\<close>

text \<open>
  A shallow embedding of \<^verbatim>\<open>sign.go\<close>: the archive classifier \<^verbatim>\<open>newArchive\<close>, the entry
  selector \<^verbatim>\<open>entrySignInfo\<close>, the extraction stage \<^verbatim>\<open>prepareEntriesToSign\<close>, the repack
  stage \<^verbatim>\<open>repackSignedEntries\<close> / \<^verbatim>\<open>writeSignedArchive\<close>, and the helpers they call.

  Go strings are byte strings, modelled as \<^typ>\<open>string\<close>. A Go function that returns an
  \<^verbatim>\<open>error\<close> or panics is modelled with the three-way type \<open>outcome\<close>: \<open>Panic e\<close> for
  \<^verbatim>\<open>panic(e)\<close>, \<open>Fail e\<close> for a non-nil error return, \<open>Done v\<close> for a normal return.
\<close>

subsection \<open>Errors and outcomes\<close>

datatype error =
    EOF                              \<comment> \<open>\<^verbatim>\<open>io.EOF\<close>\<close>
  | ErrBadPattern                    \<comment> \<open>\<^verbatim>\<open>filepath.ErrBadPattern\<close>\<close>
  | ENOENT string                    \<comment> \<open>no such file or directory\<close>
  | EISDIR string                    \<comment> \<open>is a directory\<close>
  | ENOTDIR string                   \<comment> \<open>not a directory\<close>
  | ErrFormat string                 \<comment> \<open>the file is not an archive of the expected format\<close>
  | ErrAlgorithm                     \<comment> \<open>\<^verbatim>\<open>zip.ErrAlgorithm\<close>: unsupported compression method\<close>
  | IOError string                   \<comment> \<open>any other error of the operating system or a library\<close>
  | UnknownArchiveType string        \<comment> \<open>\<^verbatim>\<open>fmt.Errorf("unknown archive type: %s", p)\<close>\<close>
  | ExtractFailed string error       \<comment> \<open>\<^verbatim>\<open>fmt.Errorf("failed to extract file from %q: %v", a.path, err)\<close>\<close>

datatype 'a outcome = Panic error | Fail error | Done 'a

subsection \<open>The library function \<^verbatim>\<open>filepath.Match\<close> (Unix)\<close>

text \<open>
  \<^verbatim>\<open>filepath.Match\<close> belongs to the Go standard library, not to this repository. The model
  follows its algorithm (\<^verbatim>\<open>scanChunk\<close>, \<^verbatim>\<open>getEsc\<close>, \<^verbatim>\<open>matchChunk\<close>, \<^verbatim>\<open>Match\<close>) with the
  separator \<^verbatim>\<open>/\<close> and the escape character \<^verbatim>\<open>\\<close>. Literal characters and \<^verbatim>\<open>*\<close> are
  compared byte by byte; \<^verbatim>\<open>?\<close> and a character class take one UTF-8 encoded rune of the
  name, decoded by \<^verbatim>\<open>utf8.DecodeRuneInString\<close>.
\<close>

definition Separator :: char where
  "Separator = CHR ''/''"

definition backslash :: char where
  "backslash = CHR 0x5C"

text \<open>The second loop of \<^verbatim>\<open>scanChunk\<close>: the chunk up to the next \<^verbatim>\<open>*\<close> outside a class.\<close>

fun scanLit :: "string \<Rightarrow> bool \<Rightarrow> string \<times> string" where
  "scanLit [] inrange = ([], [])"
| "scanLit (c # cs) inrange =
     (if c = backslash then
        (case cs of
           [] \<Rightarrow> ([c], [])
         | d # ds \<Rightarrow> (case scanLit ds inrange of (chunk, rest) \<Rightarrow> (c # d # chunk, rest)))
      else if c = CHR ''['' then
        (case scanLit cs True of (chunk, rest) \<Rightarrow> (c # chunk, rest))
      else if c = CHR '']'' then
        (case scanLit cs False of (chunk, rest) \<Rightarrow> (c # chunk, rest))
      else if c = CHR ''*'' \<and> \<not> inrange then ([], c # cs)
      else (case scanLit cs inrange of (chunk, rest) \<Rightarrow> (c # chunk, rest)))"

definition scanChunk :: "string \<Rightarrow> bool \<times> string \<times> string" where
  "scanChunk pattern =
     (pattern \<noteq> [] \<and> hd pattern = CHR ''*'',
      scanLit (dropWhile (\<lambda>c. c = CHR ''*'') pattern) False)"

text \<open>
  \<^verbatim>\<open>utf8.DecodeRuneInString\<close>: the rune at the start of the string and the number of bytes
  of its encoding; \<^verbatim>\<open>(RuneError, 1)\<close> for an invalid encoding and \<^verbatim>\<open>(RuneError, 0)\<close> for the
  empty string.
\<close>

definition RuneError :: int where
  "RuneError = 0xFFFD"

definition DecodeRuneInString :: "string \<Rightarrow> int \<times> nat" where
  "DecodeRuneInString s =
     (if s = [] then (RuneError, 0)
      else
        (let s0 = (of_char (s ! 0) :: int) in
         if s0 < 0x80 then (s0, 1)
         else if s0 < 0xC2 \<or> 0xF4 < s0 then (RuneError, 1)
         else
           (let sz = (if s0 < 0xE0 then 2 else if s0 < 0xF0 then 3 else (4 :: nat));
                lo = (if s0 = 0xE0 then 0xA0 else if s0 = 0xF0 then 0x90 else (0x80 :: int));
                hi = (if s0 = 0xED then 0x9F else if s0 = 0xF4 then 0x8F else (0xBF :: int))
            in
              if length s < sz then (RuneError, 1)
              else
                (let s1 = (of_char (s ! 1) :: int) in
                 if s1 < lo \<or> hi < s1 then (RuneError, 1)
                 else if sz \<le> 2 then ((s0 mod 32) * 64 + s1 mod 64, 2)
                 else
                   (let s2 = (of_char (s ! 2) :: int) in
                    if s2 < 0x80 \<or> 0xBF < s2 then (RuneError, 1)
                    else if sz \<le> 3 then
                      ((s0 mod 16) * 4096 + (s1 mod 64) * 64 + s2 mod 64, 3)
                    else
                      (let s3 = (of_char (s ! 3) :: int) in
                       if s3 < 0x80 \<or> 0xBF < s3 then (RuneError, 1)
                       else
                         ((s0 mod 8) * 262144 + (s1 mod 64) * 4096 + (s2 mod 64) * 64
                            + s3 mod 64, 4)))))))"

lemma DecodeRuneInString_size:
  "s \<noteq> [] \<Longrightarrow> DecodeRuneInString s = (r, n) \<Longrightarrow> 0 < n \<and> n \<le> length s"
  by (cases s) (auto simp: DecodeRuneInString_def Let_def Suc_le_eq split: if_splits)

lemma DecodeRuneInString_pos: "(r, n) = DecodeRuneInString (c # cs) \<Longrightarrow> 0 < n"
  using DecodeRuneInString_size [of "c # cs" r n] by simp

text \<open>\<^verbatim>\<open>getEsc\<close>: one rune of a character class, after an optional escape character.\<close>

definition getEsc :: "string \<Rightarrow> error + (int \<times> string)" where
  "getEsc chunk =
     (if chunk = [] \<or> hd chunk = CHR ''-'' \<or> hd chunk = CHR '']'' then Inl ErrBadPattern
      else
        (let chunk1 = (if hd chunk = backslash then tl chunk else chunk) in
         if chunk1 = [] then Inl ErrBadPattern
         else
           (case DecodeRuneInString chunk1 of
              (r, n) \<Rightarrow>
                if (r = RuneError \<and> n = 1) \<or> drop n chunk1 = [] then Inl ErrBadPattern
                else Inr (r, drop n chunk1))))"

lemma getEsc_shorter: "getEsc chunk = Inr (r, nchunk) \<Longrightarrow> length nchunk < length chunk"
proof -
  assume a: "getEsc chunk = Inr (r, nchunk)"
  let ?c1 = "if hd chunk = backslash then tl chunk else chunk"
  have ne: "chunk \<noteq> []" "?c1 \<noteq> []" using a by (auto simp: getEsc_def Let_def split: if_splits)
  obtain r' n where d: "DecodeRuneInString ?c1 = (r', n)" by (cases "DecodeRuneInString ?c1")
  have n: "0 < n" using DecodeRuneInString_size [OF ne(2) d] by simp
  have "nchunk = drop n ?c1"
    using a ne d by (auto simp: getEsc_def Let_def split: if_splits)
  then have "length nchunk < length ?c1" using n ne(2) by simp
  also have "\<dots> \<le> length chunk" by simp
  finally show ?thesis .
qed

lemma getEsc_nonempty: "getEsc chunk = Inr (r, nchunk) \<Longrightarrow> nchunk \<noteq> []"
  by (auto simp: getEsc_def Let_def split: if_splits prod.splits)

text \<open>
  The range loop of a character class in \<^verbatim>\<open>matchChunk\<close>: \<open>r\<close> is the rune of the name,
  \<open>seen\<close> is \<^verbatim>\<open>nrange > 0\<close>. It returns \<^verbatim>\<open>match\<close> and the chunk after the closing bracket.
\<close>

function classLoop :: "string \<Rightarrow> int \<Rightarrow> bool \<Rightarrow> bool \<Rightarrow> error + (bool \<times> string)" where
  "classLoop chunk r seen match =
     (if chunk \<noteq> [] \<and> hd chunk = CHR '']'' \<and> seen then Inr (match, tl chunk)
      else
        (case getEsc chunk of
           Inl e \<Rightarrow> Inl e
         | Inr (lo, chunk1) \<Rightarrow>
             if hd chunk1 = CHR ''-'' then
               (case getEsc (tl chunk1) of
                  Inl e \<Rightarrow> Inl e
                | Inr (hi, chunk2) \<Rightarrow>
                    classLoop chunk2 r True (match \<or> (lo \<le> r \<and> r \<le> hi)))
             else classLoop chunk1 r True (match \<or> (lo \<le> r \<and> r \<le> lo))))"
  by pat_completeness auto
termination
proof (relation "measure (\<lambda>(chunk, r, seen, match). length chunk)", goal_cases)
  case 1
  show ?case by simp
next
  case (2 chunk r seen match x lo chunk1 x2 hi chunk2)
  then have "length chunk1 < length chunk" "length chunk2 < length (tl chunk1)"
    by (auto dest: getEsc_shorter)
  then show ?case by simp
next
  case (3 chunk r seen match x lo chunk1)
  then show ?case by (auto dest: getEsc_shorter)
qed

lemma classLoop_shorter:
  "classLoop chunk r seen match = Inr (m, rest) \<Longrightarrow> length rest \<le> length chunk"
proof (induction chunk r seen match rule: classLoop.induct)
  case (1 chunk r seen match)
  show ?case
  proof (cases "chunk \<noteq> [] \<and> hd chunk = CHR '']'' \<and> seen")
    case True
    with "1.prems" show ?thesis by auto
  next
    case False
    note notclose = this
    show ?thesis
    proof (cases "getEsc chunk")
      case (Inl e)
      with "1.prems" notclose show ?thesis by simp
    next
      case (Inr p)
      obtain lo chunk1 where p: "p = (lo, chunk1)" by (cases p)
      have l1: "length chunk1 < length chunk"
        using Inr p by (auto dest: getEsc_shorter)
      show ?thesis
      proof (cases "hd chunk1 = CHR ''-''")
        case True
        note dash = this
        show ?thesis
        proof (cases "getEsc (tl chunk1)")
          case (Inl e)
          with "1.prems" notclose Inr p dash show ?thesis by simp
        next
          case inr2: (Inr q)
          obtain hi chunk2 where q: "q = (hi, chunk2)" by (cases q)
          have l2: "length chunk2 < length (tl chunk1)"
            using inr2 q by (auto dest: getEsc_shorter)
          have "length rest \<le> length chunk2"
            using "1.IH"(1)[OF notclose Inr p[symmetric] dash inr2 q[symmetric]] "1.prems"
              notclose Inr p dash inr2 q
            by simp
          with l1 l2 show ?thesis by simp
        qed
      next
        case False
        have "length rest \<le> length chunk1"
          using "1.IH"(2)[OF notclose Inr p[symmetric] False] "1.prems" notclose Inr p False
          by simp
        with l1 show ?thesis by simp
      qed
    qed
  qed
qed

declare classLoop.simps [simp del]

text \<open>
  \<^verbatim>\<open>matchChunk\<close>: the chunk holds only single-character operators. After the match has
  failed the loop goes on over the chunk, checking that it is well formed, and no longer
  reads \<open>s\<close>; the rune \<open>r\<close> of a class is then zero.
\<close>

function matchChunk_loop :: "string \<Rightarrow> string \<Rightarrow> bool \<Rightarrow> error + (string \<times> bool)" where
  "matchChunk_loop [] s failed = Inr (if failed then ([], False) else (s, True))"
| "matchChunk_loop (c # chunk) s failed0 =
     (if c = CHR ''['' then
        (case classLoop (if chunk \<noteq> [] \<and> hd chunk = CHR ''^'' then tl chunk else chunk)
                (if failed0 \<or> s = [] then 0 else fst (DecodeRuneInString s)) False False of
           Inl e \<Rightarrow> Inl e
         | Inr (match, chunk2) \<Rightarrow>
             matchChunk_loop chunk2
               (if failed0 \<or> s = [] then s else drop (snd (DecodeRuneInString s)) s)
               (failed0 \<or> s = [] \<or> match = (chunk \<noteq> [] \<and> hd chunk = CHR ''^'')))
      else if c = CHR ''?'' then
        (if failed0 \<or> s = [] then matchChunk_loop chunk s True
         else matchChunk_loop chunk (drop (snd (DecodeRuneInString s)) s) (hd s = Separator))
      else if c = backslash then
        (case chunk of
           [] \<Rightarrow> Inl ErrBadPattern
         | d # chunk1 \<Rightarrow>
             if failed0 \<or> s = [] then matchChunk_loop chunk1 s True
             else matchChunk_loop chunk1 (tl s) (d \<noteq> hd s))
      else
        (if failed0 \<or> s = [] then matchChunk_loop chunk s True
         else matchChunk_loop chunk (tl s) (c \<noteq> hd s)))"
  by pat_completeness auto
termination
proof (relation "measure (\<lambda>(chunk, s, failed). length chunk)", goal_cases)
  case (2 c chunk s failed0 x match chunk2)
  have "length chunk2 \<le> length (if chunk \<noteq> [] \<and> hd chunk = CHR ''^'' then tl chunk else chunk)"
    using 2 by (auto dest: classLoop_shorter)
  also have "\<dots> \<le> length chunk" by simp
  finally show ?case by simp
qed auto

definition matchChunk :: "string \<Rightarrow> string \<Rightarrow> error + (string \<times> bool)" where
  "matchChunk chunk s = matchChunk_loop chunk s False"

text \<open>
  The inner loop of \<^verbatim>\<open>Match\<close> after a star: look for a match skipping \<open>i + 1\<close> bytes, never
  skipping a separator. \<open>final\<close> is \<^verbatim>\<open>len(pattern) == 0\<close>. \<open>Some t\<close> is \<^verbatim>\<open>continue Pattern\<close> with
  the rest \<open>t\<close> of the name; \<open>None\<close> is the end of the loop.
\<close>

fun starLoop :: "string \<Rightarrow> bool \<Rightarrow> string \<Rightarrow> error + string option" where
  "starLoop chunk final [] = Inr None"
| "starLoop chunk final (c # cs) =
     (if c = Separator then Inr None
      else
        (case matchChunk chunk cs of
           Inl e \<Rightarrow> Inl e
         | Inr (t, ok) \<Rightarrow>
             if ok then (if final \<and> t \<noteq> [] then starLoop chunk final cs else Inr (Some t))
             else starLoop chunk final cs))"

lemma scanLit_shorter: "scanLit p inrange = (chunk, rest) \<Longrightarrow> length rest \<le> length p"
  by (induction p inrange arbitrary: chunk rest rule: scanLit.induct)
    (auto split: if_splits list.splits prod.splits, fastforce+)

lemma scanLit_progress:
  "scanLit p False = (chunk, rest) \<Longrightarrow> p \<noteq> [] \<Longrightarrow> hd p \<noteq> CHR ''*'' \<Longrightarrow> length rest < length p"
  by (cases p) (auto split: if_splits list.splits prod.splits dest: scanLit_shorter
      simp: le_imp_less_Suc less_Suc_eq_le)

lemma scanChunk_shorter:
  assumes "scanChunk pattern = (star, chunk, rest)" and "pattern \<noteq> []"
  shows "length rest < length pattern"
proof (cases "hd pattern = CHR ''*''")
  case True
  then obtain cs where p: "pattern = CHR ''*'' # cs" using assms(2) by (cases pattern) auto
  have "length rest \<le> length (dropWhile (\<lambda>c. c = CHR ''*'') cs)"
    using assms(1) p by (auto simp: scanChunk_def dest: scanLit_shorter)
  also have "\<dots> \<le> length cs" by (rule length_dropWhile_le)
  finally show ?thesis using p by simp
next
  case False
  then have "dropWhile (\<lambda>c. c = CHR ''*'') pattern = pattern"
    using assms(2) by (cases pattern) auto
  then show ?thesis using assms False by (auto simp: scanChunk_def dest: scanLit_progress)
qed

text \<open>
  \<^verbatim>\<open>Match\<close>. When no match is found at a chunk it returns false with no error, without
  reading the rest of the pattern.
\<close>

function Match :: "string \<Rightarrow> string \<Rightarrow> error + bool" where
  "Match pattern name =
     (if pattern = [] then Inr (name = [])
      else
        (case scanChunk pattern of
           (star, chunk, rest) \<Rightarrow>
             if star \<and> chunk = [] then Inr (Separator \<notin> set name)
             else
               (case matchChunk chunk name of
                  Inl e \<Rightarrow> Inl e
                | Inr (t, ok) \<Rightarrow>
                    if ok \<and> (t = [] \<or> rest \<noteq> []) then Match rest t
                    else if star then
                      (case starLoop chunk (rest = []) name of
                         Inl e \<Rightarrow> Inl e
                       | Inr None \<Rightarrow> Inr False
                       | Inr (Some t') \<Rightarrow> Match rest t')
                    else Inr False)))"
  by pat_completeness auto
termination
  by (relation "measure (\<lambda>(pattern, name). length pattern)")
    (auto dest: scanChunk_shorter [OF sym])

declare Match.simps [simp del]

text \<open>\<^verbatim>\<open>matchOrPanic\<close> of \<^verbatim>\<open>sign.go\<close>.\<close>

definition matchOrPanic :: "string \<Rightarrow> string \<Rightarrow> bool outcome" where
  "matchOrPanic pattern name =
     (case Match pattern name of Inl err \<Rightarrow> Panic err | Inr ok \<Rightarrow> Done ok)"

subsection \<open>The library functions \<^verbatim>\<open>filepath.Clean\<close> and \<^verbatim>\<open>filepath.Join\<close> (Unix)\<close>

text \<open>
  \<^verbatim>\<open>Clean\<close> reads the path from left to right and writes the buffer \<open>out\<close>; \<open>dotdot\<close> is
  the index in the buffer where a \<^verbatim>\<open>..\<close> element must stop backtracking.
\<close>

function backtrack :: "string \<Rightarrow> nat \<Rightarrow> nat \<Rightarrow> nat" where
  "backtrack out dotdot w =
     (if w > dotdot \<and> out ! w \<noteq> Separator then backtrack out dotdot (w - 1) else w)"
  by pat_completeness auto
termination
  by (relation "measure (\<lambda>(out, dotdot, w). w)") auto

declare backtrack.simps [simp del]

function Clean_loop :: "bool \<Rightarrow> string \<Rightarrow> string \<Rightarrow> nat \<Rightarrow> string" where
  "Clean_loop rooted [] out dotdot = out"
| "Clean_loop rooted (c # cs) out dotdot =
     (if c = Separator then Clean_loop rooted cs out dotdot
      else if c = CHR ''.'' \<and> (cs = [] \<or> hd cs = Separator) then Clean_loop rooted cs out dotdot
      else if c = CHR ''.'' \<and> cs \<noteq> [] \<and> hd cs = CHR ''.''
                \<and> (tl cs = [] \<or> hd (tl cs) = Separator) then
        (if length out > dotdot then
           Clean_loop rooted (tl cs) (take (backtrack out dotdot (length out - 1)) out) dotdot
         else if \<not> rooted then
           Clean_loop rooted (tl cs) (out @ (if out \<noteq> [] then [Separator] else []) @ ''..'')
             (length (out @ (if out \<noteq> [] then [Separator] else []) @ ''..''))
         else Clean_loop rooted (tl cs) out dotdot)
      else
        Clean_loop rooted (dropWhile (\<lambda>x. x \<noteq> Separator) cs)
          (out @ (if rooted \<and> length out \<noteq> 1 \<or> \<not> rooted \<and> length out \<noteq> 0
                  then [Separator] else [])
               @ c # takeWhile (\<lambda>x. x \<noteq> Separator) cs)
          dotdot)"
  by pat_completeness auto
termination
proof (relation "measure (\<lambda>(rooted, p, out, dotdot). length p)", goal_cases)
  case (7 rooted c cs out dotdot)
  have "length (dropWhile (\<lambda>x. x \<noteq> Separator) cs) \<le> length cs"
    by (rule length_dropWhile_le)
  then show ?case by simp
qed auto

definition Clean :: "string \<Rightarrow> string" where
  "Clean p =
     (if p = [] then ''.''
      else
        (let rooted = (hd p = Separator);
             out = (if rooted then Clean_loop True (tl p) [Separator] 1
                    else Clean_loop False p [] 0)
         in if out = [] then ''.'' else out))"

text \<open>\<^verbatim>\<open>strings.Join(elems, "/")\<close>.\<close>

fun strings_Join :: "string list \<Rightarrow> string" where
  "strings_Join [] = []"
| "strings_Join [e] = e"
| "strings_Join (e # es) = e @ Separator # strings_Join es"

text \<open>\<^verbatim>\<open>filepath.Join\<close>: leading empty elements are ignored, the rest is joined and cleaned.\<close>

definition Join :: "string list \<Rightarrow> string" where
  "Join elem =
     (case dropWhile (\<lambda>e. e = []) elem of
        [] \<Rightarrow> []
      | es \<Rightarrow> Clean (strings_Join es))"

subsection \<open>Archives and the archive classifier\<close>

record fileToSign =
  archivePath :: string
  fullPath :: string
  authenticode :: string

datatype archiveType = zipArchive | tarGzArchive

record archive =
  path :: string
  archiveType :: archiveType
  macOS :: bool
  extractEntries :: "string list"

definition entryExtractDir :: "archive \<Rightarrow> string" where
  "entryExtractDir a = path a @ ''.extracted''"

text \<open>
  \<^verbatim>\<open>newArchive\<close>. The struct literal sets only \<^verbatim>\<open>path\<close>; the other fields have their
  zero values (\<^verbatim>\<open>zipArchive\<close> is \<^verbatim>\<open>iota\<close> 0). The calls of \<^verbatim>\<open>matchOrPanic\<close> are written
  with the arguments in the order of the source: the first is the pattern.
\<close>

definition newArchive_macOS :: "string \<Rightarrow> archive \<Rightarrow> archive outcome" where
  "newArchive_macOS p a =
     (case matchOrPanic ''go*darwin*.tar.gz'' p of
        Panic e \<Rightarrow> Panic e
      | Fail e \<Rightarrow> Fail e
      | Done m \<Rightarrow> Done (if m then a\<lparr>macOS := True\<rparr> else a))"

definition newArchive :: "string \<Rightarrow> archive outcome" where
  "newArchive p =
     (let a = \<lparr>path = p, archiveType = zipArchive, macOS = False, extractEntries = []\<rparr>
      in case matchOrPanic p ''go*.zip'' of
           Panic e \<Rightarrow> Panic e
         | Fail e \<Rightarrow> Fail e
         | Done isZip \<Rightarrow>
             if isZip then newArchive_macOS p (a\<lparr>archiveType := zipArchive\<rparr>)
             else
               (case matchOrPanic p ''go*.tar.gz'' of
                  Panic e \<Rightarrow> Panic e
                | Fail e \<Rightarrow> Fail e
                | Done isTarGz \<Rightarrow>
                    if isTarGz then newArchive_macOS p (a\<lparr>archiveType := tarGzArchive\<rparr>)
                    else Fail (UnknownArchiveType p)))"

subsection \<open>The entry selector\<close>

text \<open>\<^verbatim>\<open>strings.HasSuffix\<close>.\<close>

definition HasSuffix :: "string \<Rightarrow> string \<Rightarrow> bool" where
  "HasSuffix s suf = (length suf \<le> length s \<and> drop (length s - length suf) s = suf)"

text \<open>
  \<^verbatim>\<open>entrySignInfo\<close>: \<open>Done None\<close> is the \<^verbatim>\<open>nil\<close> result. The operator \<^verbatim>\<open>||\<close> evaluates its
  second operand only when the first is false.
\<close>

definition entrySignInfo :: "archive \<Rightarrow> string \<Rightarrow> fileToSign option outcome" where
  "entrySignInfo a name =
     (if archiveType a = zipArchive then
        (if HasSuffix name ''.exe'' then
           Done (Some \<lparr>archivePath = path a,
                       fullPath = Join [entryExtractDir a, name],
                       authenticode = ''Microsoft400''\<rparr>)
         else Done None)
      else if macOS a then
        (case matchOrPanic ''go/bin/*'' name of
           Panic e \<Rightarrow> Panic e
         | Fail e \<Rightarrow> Fail e
         | Done m1 \<Rightarrow>
             (case (if m1 then Done True else matchOrPanic ''pkg/tool/*/*'' name) of
                Panic e \<Rightarrow> Panic e
              | Fail e \<Rightarrow> Fail e
              | Done m \<Rightarrow>
                  if m then
                    Done (Some \<lparr>archivePath = path a,
                                fullPath = Join [entryExtractDir a, name],
                                authenticode = ''MacDeveloperHarden''\<rparr>)
                  else Done None))
      else Done None)"


subsection \<open>Files, archives and the operating system\<close>

text \<open>
  The operating system and the packages \<^verbatim>\<open>archive/zip\<close>, \<^verbatim>\<open>archive/tar\<close> and
  \<^verbatim>\<open>compress/gzip\<close> are outside \<^verbatim>\<open>sign.go\<close>. They are modelled at the level at which
  \<^verbatim>\<open>sign.go\<close> uses them: an archive is the sequence of its entries, and the file system
  maps a cleaned path to a directory or to a file.

  A \<^verbatim>\<open>zip.FileHeader\<close> is a record of the fields that \<^verbatim>\<open>zw.CreateHeader\<close> reads or writes
  and that do not depend on the content: \<open>Modified\<close> is the time in seconds since the Unix
  epoch, \<open>Extra\<close> the bytes of the extra field. The checksum, the sizes and the legacy
  MS-DOS date and time, which the writer computes from the content and from \<open>Modified\<close>,
  are not part of the record.
\<close>

type_synonym bytes = string

record zip_FileHeader =
  Name :: string
  Comment :: string
  NonUTF8 :: bool
  CreatorVersion :: nat
  ReaderVersion :: nat
  Flags :: nat
  Method :: nat
  Modified :: int
  ExternalAttrs :: nat
  Extra :: bytes

text \<open>A \<^verbatim>\<open>zip.File\<close>: its header and the bytes that the reader of \<^verbatim>\<open>f.Open()\<close> delivers.\<close>

record zip_File =
  FileHeader :: zip_FileHeader
  content :: bytes

record tar_Header =
  tar_Name :: string
  tar_Mode :: int
  tar_Size :: int
  tar_ModTime :: int

record tar_entry =
  Header :: tar_Header
  body :: bytes

text \<open>
  The content of a regular file. \<open>ZipFile es c\<close> is a zip stream with the entries \<open>es\<close>;
  \<open>c\<close> tells whether its central directory has been written, without which it cannot
  be opened. \<open>TarGzFile es e\<close> is a gzip stream of a tar stream with the entries \<open>es\<close>,
  after which \<^verbatim>\<open>Next\<close> reports \<open>e\<close>: \<^verbatim>\<open>io.EOF\<close> for a complete archive.
\<close>

datatype filedata =
    Plain bytes
  | ZipFile "zip_File list" bool
  | TarGzFile "tar_entry list" error

datatype node = DirNode | FileNode filedata

text \<open>What has a \<^verbatim>\<open>Close\<close> method: files, readers and writers.\<close>

datatype res =
    OsFile string                \<comment> \<open>an \<^verbatim>\<open>*os.File\<close> on the cleaned path\<close>
  | ZipReader string             \<comment> \<open>the \<^verbatim>\<open>*zip.ReadCloser\<close> of the archive at the path\<close>
  | ZipEntry string string       \<comment> \<open>the reader of \<^verbatim>\<open>f.Open()\<close>: archive path and entry name\<close>
  | GzipReader string            \<comment> \<open>the \<^verbatim>\<open>*gzip.Reader\<close> over the file at the path\<close>
  | TarEntry string string       \<comment> \<open>the \<^verbatim>\<open>*tar.Reader\<close> at an entry: archive path and entry name\<close>
  | ZipWriter
  | GzipWriter
  | TarWriter

datatype event = Opened res | Closed res

text \<open>The fallible calls, as keys of the faults that the environment injects.\<close>

datatype op =
    OsMkdirAll string
  | OsCreate string
  | OsOpen string
  | ZipOpenReader string
  | ZipFileOpen string string
  | GzipNewReader string
  | ZipCreateHeader string
  | IoCopy res res               \<comment> \<open>destination and source\<close>
  | Close res

text \<open>
  The environment: \<open>fault\<close> makes a call fail for a reason outside the model (a full disk,
  a permission, a corrupt entry); \<open>cut\<close> is the number of bytes that a failing
  \<^verbatim>\<open>io.Copy\<close> has transferred; \<open>raw\<close> gives the bytes of a file that holds an archive;
  \<open>destinationDir\<close> is the flag \<^verbatim>\<open>-o\<close>.
\<close>

record env =
  fault :: "op \<Rightarrow> error option"
  cut :: "op \<Rightarrow> nat"
  raw :: "filedata \<Rightarrow> bytes"
  destinationDir :: string

record world =
  fs :: "string \<rightharpoonup> node"
  trace :: "event list"

definition file_bytes :: "env \<Rightarrow> filedata \<Rightarrow> bytes" where
  "file_bytes E f = (case f of Plain bs \<Rightarrow> bs | _ \<Rightarrow> raw E f)"

text \<open>An \<^verbatim>\<open>io.Reader\<close>: its resource, the content it reads, and the error after it.\<close>

record reader =
  rsrc :: res
  rfile :: filedata
  rerr :: "error option"

definition is_dir :: "world \<Rightarrow> string \<Rightarrow> bool" where
  "is_dir W d = (d = ''.'' \<or> d = ''/'' \<or> fs W d = Some DirNode)"

text \<open>\<^verbatim>\<open>filepath.Dir\<close>: all but the last element of the path, cleaned.\<close>

definition Dir :: "string \<Rightarrow> string" where
  "Dir p = Clean (rev (dropWhile (\<lambda>c. c \<noteq> Separator) (rev p)))"

text \<open>The directories that \<^verbatim>\<open>os.MkdirAll\<close> visits, outermost first.\<close>

fun ancestors_from :: "string \<Rightarrow> string \<Rightarrow> string list" where
  "ancestors_from acc [] = [acc]"
| "ancestors_from acc (c # cs) =
     (if c = Separator \<and> acc \<noteq> [] then acc # ancestors_from (acc @ [c]) cs
      else ancestors_from (acc @ [c]) cs)"

fun mkdirs :: "string list \<Rightarrow> (string \<rightharpoonup> node) \<Rightarrow> error option \<times> (string \<rightharpoonup> node)" where
  "mkdirs [] m = (None, m)"
| "mkdirs (d # ds) m =
     (if d = ''.'' \<or> d = ''/'' then mkdirs ds m
      else
        (case m d of
           Some (FileNode f) \<Rightarrow> (Some (ENOTDIR d), m)
         | _ \<Rightarrow> mkdirs ds (m(d \<mapsto> DirNode))))"

definition os_MkdirAll :: "env \<Rightarrow> string \<Rightarrow> world \<Rightarrow> unit outcome \<times> world" where
  "os_MkdirAll E p W =
     (case fault E (OsMkdirAll (Clean p)) of
        Some e \<Rightarrow> (Fail e, W)
      | None \<Rightarrow>
          (case mkdirs (ancestors_from [] (Clean p)) (fs W) of
             (Some e, m) \<Rightarrow> (Fail e, W\<lparr>fs := m\<rparr>)
           | (None, m) \<Rightarrow> (Done (), W\<lparr>fs := m\<rparr>)))"

text \<open>\<^verbatim>\<open>os.Create\<close>: the file is created or truncated; its directory must exist.\<close>

definition os_Create :: "env \<Rightarrow> string \<Rightarrow> world \<Rightarrow> res outcome \<times> world" where
  "os_Create E p W =
     (let q = Clean p in
      case fault E (OsCreate q) of
        Some e \<Rightarrow> (Fail e, W)
      | None \<Rightarrow>
          if is_dir W q then (Fail (EISDIR q), W)
          else if \<not> is_dir W (Dir q) then
            (Fail (if fs W (Dir q) = None then ENOENT q else ENOTDIR q), W)
          else (Done (OsFile q),
                W\<lparr>fs := (fs W)(q \<mapsto> FileNode (Plain [])),
                  trace := trace W @ [Opened (OsFile q)]\<rparr>))"

text \<open>\<^verbatim>\<open>os.Open\<close>: a directory can be opened, and reading it fails.\<close>

definition os_Open :: "env \<Rightarrow> string \<Rightarrow> world \<Rightarrow> reader outcome \<times> world" where
  "os_Open E p W =
     (let q = Clean p in
      case fault E (OsOpen q) of
        Some e \<Rightarrow> (Fail e, W)
      | None \<Rightarrow>
          if is_dir W q then
            (Done \<lparr>rsrc = OsFile q, rfile = Plain [], rerr = Some (EISDIR q)\<rparr>,
             W\<lparr>trace := trace W @ [Opened (OsFile q)]\<rparr>)
          else
            (case fs W q of
               Some (FileNode f) \<Rightarrow>
                 (Done \<lparr>rsrc = OsFile q, rfile = f, rerr = None\<rparr>,
                  W\<lparr>trace := trace W @ [Opened (OsFile q)]\<rparr>)
             | _ \<Rightarrow> (Fail (ENOENT q), W)))"

text \<open>\<^verbatim>\<open>Close\<close> of any resource: the resource is released whether or not an error is reported.\<close>

definition close :: "env \<Rightarrow> res \<Rightarrow> world \<Rightarrow> error option \<times> world" where
  "close E r W = (fault E (Close r), W\<lparr>trace := trace W @ [Closed r]\<rparr>)"

text \<open>\<^verbatim>\<open>io.Copy\<close> from a reader: the bytes transferred and the error.\<close>

definition io_Copy :: "env \<Rightarrow> res \<Rightarrow> reader \<Rightarrow> bytes \<times> error option" where
  "io_Copy E dst r =
     (case fault E (IoCopy dst (rsrc r)) of
        Some e \<Rightarrow> (take (cut E (IoCopy dst (rsrc r))) (file_bytes E (rfile r)), Some e)
      | None \<Rightarrow> (file_bytes E (rfile r), rerr r))"

text \<open>\<^verbatim>\<open>zip.OpenReader\<close>: the entries \<^verbatim>\<open>zr.File\<close> of the archive.\<close>

definition zip_OpenReader :: "env \<Rightarrow> string \<Rightarrow> world \<Rightarrow> zip_File list outcome \<times> world" where
  "zip_OpenReader E p W =
     (let q = Clean p in
      case fault E (ZipOpenReader q) of
        Some e \<Rightarrow> (Fail e, W)
      | None \<Rightarrow>
          if is_dir W q then (Fail (EISDIR q), W)
          else
            (case fs W q of
               Some (FileNode (ZipFile es True)) \<Rightarrow>
                 (Done es, W\<lparr>trace := trace W @ [Opened (ZipReader q)]\<rparr>)
             | Some (FileNode f) \<Rightarrow> (Fail (ErrFormat q), W)
             | _ \<Rightarrow> (Fail (ENOENT q), W)))"

text \<open>\<^verbatim>\<open>f.Open()\<close> on an entry of the archive \<open>a\<close>.\<close>

definition zip_File_Open :: "env \<Rightarrow> archive \<Rightarrow> zip_File \<Rightarrow> world \<Rightarrow> reader outcome \<times> world" where
  "zip_File_Open E a f W =
     (let r = ZipEntry (Clean (path a)) (Name (FileHeader f)) in
      case fault E (ZipFileOpen (Clean (path a)) (Name (FileHeader f))) of
        Some e \<Rightarrow> (Fail e, W)
      | None \<Rightarrow>
          (Done \<lparr>rsrc = r, rfile = Plain (content f), rerr = None\<rparr>,
           W\<lparr>trace := trace W @ [Opened r]\<rparr>))"

text \<open>
  A \<^verbatim>\<open>*tar.Reader\<close> over a gzip reader: the entries not yet read and the error that
  \<^verbatim>\<open>Next\<close> reports after them. \<^verbatim>\<open>gzip.NewReader\<close> fails on a file that is not a gzip
  stream.
\<close>

record tar_Reader =
  tsrc :: string
  pending :: "tar_entry list"
  endErr :: error

definition gzip_NewReader :: "env \<Rightarrow> reader \<Rightarrow> world \<Rightarrow> tar_Reader outcome \<times> world" where
  "gzip_NewReader E f W =
     (case rsrc f of
        OsFile q \<Rightarrow>
          (case fault E (GzipNewReader q) of
             Some e \<Rightarrow> (Fail e, W)
           | None \<Rightarrow>
               (case rerr f of
                  Some e \<Rightarrow> (Fail e, W)
                | None \<Rightarrow>
                    (case rfile f of
                       TarGzFile es e \<Rightarrow>
                         (Done \<lparr>tsrc = q, pending = es, endErr = e\<rparr>,
                          W\<lparr>trace := trace W @ [Opened (GzipReader q)]\<rparr>)
                     | _ \<Rightarrow> (Fail (ErrFormat q), W))))
      | _ \<Rightarrow> (Fail (IOError ''gzip: not a file''), W))"

text \<open>The content of the file behind an \<^verbatim>\<open>*os.File\<close> after writing to it.\<close>

definition set_content :: "res \<Rightarrow> filedata \<Rightarrow> world \<Rightarrow> world" where
  "set_content h d W =
     (case h of OsFile q \<Rightarrow> W\<lparr>fs := (fs W)(q \<mapsto> FileNode d)\<rparr> | _ \<Rightarrow> W)"

text \<open>The rule of \<^verbatim>\<open>sign.go\<close> for a close error: \<^verbatim>\<open>if closeErr := c.Close(); err == nil { err = closeErr }\<close>.\<close>

definition orClose :: "unit outcome \<Rightarrow> error option \<Rightarrow> unit outcome" where
  "orClose err closeErr =
     (case err of
        Done u \<Rightarrow> (case closeErr of None \<Rightarrow> Done () | Some e \<Rightarrow> Fail e)
      | _ \<Rightarrow> err)"

definition of_err :: "error option \<Rightarrow> unit outcome" where
  "of_err err = (case err of None \<Rightarrow> Done () | Some e \<Rightarrow> Fail e)"

subsection \<open>The helpers of \<^verbatim>\<open>sign.go\<close>\<close>

text \<open>\<^verbatim>\<open>writeFile\<close>.\<close>

definition writeFile :: "env \<Rightarrow> string \<Rightarrow> reader \<Rightarrow> world \<Rightarrow> unit outcome \<times> world" where
  "writeFile E p r W =
     (case os_Create E p W of
        (Panic e, W1) \<Rightarrow> (Panic e, W1)
      | (Fail e, W1) \<Rightarrow> (Fail e, W1)
      | (Done f, W1) \<Rightarrow>
          (case io_Copy E f r of
             (written, err) \<Rightarrow>
               (case close E f (set_content f (Plain written) W1) of
                  (closeErr, W2) \<Rightarrow> (orClose (of_err err) closeErr, W2))))"

text \<open>\<^verbatim>\<open>writeFileAndCloseReader\<close>.\<close>

definition writeFileAndCloseReader ::
    "env \<Rightarrow> string \<Rightarrow> reader \<Rightarrow> world \<Rightarrow> unit outcome \<times> world" where
  "writeFileAndCloseReader E p r W =
     (case writeFile E p r W of
        (err, W1) \<Rightarrow>
          (case close E (rsrc r) W1 of
             (closeErr, W2) \<Rightarrow> (orClose err closeErr, W2)))"

text \<open>
  \<^verbatim>\<open>eachZipEntry\<close>: the callback has effects, so it takes and returns a state \<open>'s\<close>. The
  first argument is \<^verbatim>\<open>r.File\<close>.
\<close>

fun eachZipEntry ::
    "zip_File list \<Rightarrow> (zip_File \<Rightarrow> 's \<Rightarrow> unit outcome \<times> 's) \<Rightarrow> 's \<Rightarrow> unit outcome \<times> 's" where
  "eachZipEntry [] f s = (Done (), s)"
| "eachZipEntry (x # xs) f s =
     (case f x s of
        (Done u, s1) \<Rightarrow> eachZipEntry xs f s1
      | (Fail err, s1) \<Rightarrow> (Fail err, s1)
      | (Panic err, s1) \<Rightarrow> (Panic err, s1))"

text \<open>
  \<^verbatim>\<open>errors.Is\<close>: no error of this model wraps another one with \<^verbatim>\<open>%w\<close> (\<^verbatim>\<open>sign.go\<close>
  formats with \<^verbatim>\<open>%v\<close>), so the chain of an error is the error itself.
\<close>

definition errors_Is :: "error \<Rightarrow> error \<Rightarrow> bool" where
  "errors_Is err target = (err = target)"

text \<open>
  \<^verbatim>\<open>eachTarGzEntry\<close>. Each \<^verbatim>\<open>r.Next()\<close> takes one entry from the reader, and after the
  last entry it reports the reader's error, so the loop \<^verbatim>\<open>for { ... }\<close> is a recursion
  over the entries not yet read. The callback gets the header and the reader positioned
  at the entry.
\<close>

fun eachTarGzEntry_loop ::
    "string \<Rightarrow> tar_entry list \<Rightarrow> error \<Rightarrow> (tar_Header \<Rightarrow> reader \<Rightarrow> 's \<Rightarrow> unit outcome \<times> 's)
      \<Rightarrow> 's \<Rightarrow> unit outcome \<times> 's" where
  "eachTarGzEntry_loop q [] err f s =
     (if errors_Is err EOF then (Done (), s) else (Fail err, s))"
| "eachTarGzEntry_loop q (x # xs) err f s =
     (case f (Header x)
             \<lparr>rsrc = TarEntry q (tar_Name (Header x)), rfile = Plain (body x), rerr = None\<rparr> s of
        (Done u, s1) \<Rightarrow> eachTarGzEntry_loop q xs err f s1
      | (Fail e, s1) \<Rightarrow> (Fail e, s1)
      | (Panic e, s1) \<Rightarrow> (Panic e, s1))"

definition eachTarGzEntry ::
    "tar_Reader \<Rightarrow> (tar_Header \<Rightarrow> reader \<Rightarrow> 's \<Rightarrow> unit outcome \<times> 's) \<Rightarrow> 's \<Rightarrow> unit outcome \<times> 's" where
  "eachTarGzEntry r f s = eachTarGzEntry_loop (tsrc r) (pending r) (endErr r) f s"

text \<open>\<^verbatim>\<open>openZip\<close> and \<^verbatim>\<open>openTarGz\<close>.\<close>

definition openZip :: "env \<Rightarrow> archive \<Rightarrow> world \<Rightarrow> zip_File list outcome \<times> world" where
  "openZip E a W = zip_OpenReader E (path a) W"

definition openTarGz :: "env \<Rightarrow> archive \<Rightarrow> world \<Rightarrow> (res \<times> tar_Reader) outcome \<times> world" where
  "openTarGz E a W =
     (case os_Open E (path a) W of
        (Panic e, W1) \<Rightarrow> (Panic e, W1)
      | (Fail e, W1) \<Rightarrow> (Fail e, W1)
      | (Done f, W1) \<Rightarrow>
          (case gzip_NewReader E f W1 of
             (Panic e, W2) \<Rightarrow> (Panic e, W2)
           | (Fail e, W2) \<Rightarrow> (Fail e, snd (close E (rsrc f) W2))
           | (Done tr, W2) \<Rightarrow> (Done (rsrc f, tr), W2)))"

subsection \<open>The extraction stage\<close>

text \<open>
  The loop \<^verbatim>\<open>for _, f := range zr.File\<close> of \<^verbatim>\<open>prepareEntriesToSign\<close>, with \<^verbatim>\<open>results\<close> as
  an accumulator. \<^verbatim>\<open>fail(err)\<close> is \<open>Fail (ExtractFailed (path a) err)\<close>.
\<close>

fun extractZipEntries ::
    "env \<Rightarrow> archive \<Rightarrow> zip_File list \<Rightarrow> fileToSign list \<Rightarrow> world
      \<Rightarrow> fileToSign list outcome \<times> world" where
  "extractZipEntries E a [] results W = (Done results, W)"
| "extractZipEntries E a (f # rest) results W =
     (case entrySignInfo a (Name (FileHeader f)) of
        Panic e \<Rightarrow> (Panic e, W)
      | Fail e \<Rightarrow> (Fail e, W)
      | Done None \<Rightarrow> extractZipEntries E a rest results W
      | Done (Some info) \<Rightarrow>
          (case zip_File_Open E a f W of
             (Panic e, W1) \<Rightarrow> (Panic e, W1)
           | (Fail e, W1) \<Rightarrow> (Fail (ExtractFailed (path a) e), W1)
           | (Done fReader, W1) \<Rightarrow>
               (case writeFileAndCloseReader E (fullPath info) fReader W1 of
                  (Panic e, W2) \<Rightarrow> (Panic e, W2)
                | (Fail e, W2) \<Rightarrow> (Fail (ExtractFailed (path a) e), W2)
                | (Done u, W2) \<Rightarrow> extractZipEntries E a rest (results @ [info]) W2)))"

text \<open>The callback that \<^verbatim>\<open>prepareEntriesToSign\<close> gives to \<^verbatim>\<open>eachTarGzEntry\<close>.\<close>

definition extractTarEntry ::
    "env \<Rightarrow> archive \<Rightarrow> tar_Header \<Rightarrow> reader \<Rightarrow> fileToSign list \<times> world
      \<Rightarrow> unit outcome \<times> (fileToSign list \<times> world)" where
  "extractTarEntry E a header tr s =
     (case s of
        (results, W) \<Rightarrow>
          (case entrySignInfo a (tar_Name header) of
             Panic e \<Rightarrow> (Panic e, s)
           | Fail e \<Rightarrow> (Fail e, s)
           | Done None \<Rightarrow> (Done (), s)
           | Done (Some info) \<Rightarrow>
               (case writeFile E (Join [fullPath info, tar_Name header]) tr W of
                  (Panic e, W1) \<Rightarrow> (Panic e, (results, W1))
                | (Fail e, W1) \<Rightarrow> (Fail e, (results, W1))
                | (Done u, W1) \<Rightarrow> (Done (), (results @ [info], W1)))))"

text \<open>
  \<^verbatim>\<open>prepareEntriesToSign\<close>. The deferred \<^verbatim>\<open>zr.Close()\<close> and \<^verbatim>\<open>f.Close()\<close> run on every
  exit after the open, and their errors are dropped. The gzip reader is not closed.
\<close>

definition prepareEntriesToSign ::
    "env \<Rightarrow> archive \<Rightarrow> world \<Rightarrow> fileToSign list outcome \<times> world" where
  "prepareEntriesToSign E a W =
     (case os_MkdirAll E (entryExtractDir a) W of
        (Panic e, W1) \<Rightarrow> (Panic e, W1)
      | (Fail e, W1) \<Rightarrow> (Fail e, W1)
      | (Done u, W1) \<Rightarrow>
          if archiveType a = zipArchive then
            (case zip_OpenReader E (path a) W1 of
               (Panic e, W2) \<Rightarrow> (Panic e, W2)
             | (Fail e, W2) \<Rightarrow> (Fail (ExtractFailed (path a) e), W2)
             | (Done zr, W2) \<Rightarrow>
                 (case extractZipEntries E a zr [] W2 of
                    (res, W3) \<Rightarrow> (res, snd (close E (ZipReader (Clean (path a))) W3))))
          else if macOS a then
            (case os_Open E (path a) W1 of
               (Panic e, W2) \<Rightarrow> (Panic e, W2)
             | (Fail e, W2) \<Rightarrow> (Fail (ExtractFailed (path a) e), W2)
             | (Done f, W2) \<Rightarrow>
                 (case gzip_NewReader E f W2 of
                    (Panic e, W3) \<Rightarrow> (Panic e, snd (close E (rsrc f) W3))
                  | (Fail e, W3) \<Rightarrow>
                      (Fail (ExtractFailed (path a) e), snd (close E (rsrc f) W3))
                  | (Done tr, W3) \<Rightarrow>
                      (case eachTarGzEntry tr (extractTarEntry E a) ([], W3) of
                         (Panic e, (results, W4)) \<Rightarrow> (Panic e, snd (close E (rsrc f) W4))
                       | (Fail e, (results, W4)) \<Rightarrow>
                           (Fail (ExtractFailed (path a) e), snd (close E (rsrc f) W4))
                       | (Done u, (results, W4)) \<Rightarrow>
                           (Done results, snd (close E (rsrc f) W4)))))
          else (Done [], W1))"

subsection \<open>The repack stage\<close>

text \<open>
  \<^verbatim>\<open>zw.CreateHeader\<close> of \<^verbatim>\<open>archive/zip\<close> takes ownership of the header it is given and
  rewrites it before it writes it. \<^verbatim>\<open>detectUTF8\<close> tells whether a string is valid UTF-8 and
  whether it must be marked as UTF-8: a rune below \<^verbatim>\<open>0x20\<close>, above \<^verbatim>\<open>0x7d\<close> or equal to
  \<^verbatim>\<open>0x5c\<close> requires the mark.
\<close>

definition ValidRune :: "int \<Rightarrow> bool" where
  "ValidRune r = ((0 \<le> r \<and> r < 0xD800) \<or> (0xDFFF < r \<and> r \<le> 0x10FFFF))"

function detectUTF8_loop :: "string \<Rightarrow> bool \<Rightarrow> bool \<times> bool" where
  "detectUTF8_loop [] require = (True, require)"
| "detectUTF8_loop (c # cs) require =
     (case DecodeRuneInString (c # cs) of
        (r, n) \<Rightarrow>
          if r < 0x20 \<or> r > 0x7d \<or> r = 0x5c then
            (if \<not> ValidRune r \<or> (r = RuneError \<and> n = 1) then (False, False)
             else detectUTF8_loop (drop n (c # cs)) True)
          else detectUTF8_loop (drop n (c # cs)) require)"
  by pat_completeness auto
termination
  by (relation "measure (\<lambda>(s, require). length s)") (auto dest: DecodeRuneInString_pos)

definition detectUTF8 :: "string \<Rightarrow> bool \<times> bool" where
  "detectUTF8 s = detectUTF8_loop s False"

text \<open>
  A bit of the 16-bit field \<^verbatim>\<open>Flags\<close>, given by its value \<open>m\<close>, a power of two:
  \<^verbatim>\<open>Flags |= m\<close> and \<^verbatim>\<open>Flags &^= m\<close>.
\<close>

definition setFlag :: "nat \<Rightarrow> nat \<Rightarrow> nat" where
  "setFlag m flags = (if flags div m mod 2 = 1 then flags else flags + m)"

definition clearFlag :: "nat \<Rightarrow> nat \<Rightarrow> nat" where
  "clearFlag m flags = (if flags div m mod 2 = 1 then flags - m else flags)"

text \<open>
  The zero \<^verbatim>\<open>time.Time\<close> in seconds since the Unix epoch, and the extended timestamp record
  that \<^verbatim>\<open>CreateHeader\<close> appends to \<^verbatim>\<open>Extra\<close>: the identifier \<^verbatim>\<open>0x5455\<close>, the size 5, the flag
  of a modification time, and the time as a 32-bit number, all little-endian.
\<close>

definition zeroTime :: int where
  "zeroTime = - 62135596800"

definition extTimeExtra :: "int \<Rightarrow> bytes" where
  "extTimeExtra t =
     (let mt = t mod 2 ^ 32 in
      map char_of [0x55, 0x54, 5, 0, 1,
                   mt mod 256, mt div 256 mod 256, mt div 65536 mod 256, mt div 16777216 mod 256])"

definition Store :: nat where
  "Store = 0"

definition Deflate :: nat where
  "Deflate = 8"

text \<open>
  The header as \<^verbatim>\<open>CreateHeader\<close> leaves it: the UTF-8 flag \<^verbatim>\<open>0x800\<close> is cleared or set,
  the versions are set to 2.0, a modification time that is set is appended to \<^verbatim>\<open>Extra\<close> as
  an extended timestamp, and the data descriptor flag \<^verbatim>\<open>0x8\<close> is set for a file entry; an
  entry whose name ends in \<^verbatim>\<open>/\<close> is a directory, stored without a data descriptor.
\<close>

definition createdHeader :: "zip_FileHeader \<Rightarrow> zip_FileHeader" where
  "createdHeader fh =
     (let utf8Name = detectUTF8 (Name fh);
          utf8Comment = detectUTF8 (Comment fh);
          flags1 =
            (if NonUTF8 fh then clearFlag 0x800 (Flags fh)
             else if (snd utf8Name \<or> snd utf8Comment) \<and> fst utf8Name \<and> fst utf8Comment
               then setFlag 0x800 (Flags fh)
             else Flags fh);
          fh1 = fh\<lparr>Flags := flags1,
                   CreatorVersion := CreatorVersion fh div 256 * 256 + 20,
                   ReaderVersion := 20,
                   Extra := (if Modified fh \<noteq> zeroTime
                             then Extra fh @ extTimeExtra (Modified fh) else Extra fh)\<rparr>
      in
        if HasSuffix (Name fh) ''/'' then fh1\<lparr>Method := Store, Flags := clearFlag 0x8 flags1\<rparr>
        else fh1\<lparr>Flags := setFlag 0x8 flags1\<rparr>)"

text \<open>
  The zip writer \<^verbatim>\<open>zw\<close> is modelled by the entries written so far: \<^verbatim>\<open>zw.CreateHeader\<close>
  starts an entry with the header as it has rewritten it, and fails with
  \<^verbatim>\<open>zip.ErrAlgorithm\<close> for a file entry whose compression method is neither Store nor
  Deflate; writing to the entry writer appends to the content of the last entry.
\<close>

definition zip_CreateHeader :: "env \<Rightarrow> zip_FileHeader \<Rightarrow> zip_File list \<Rightarrow> error + zip_File list" where
  "zip_CreateHeader E h written =
     (case fault E (ZipCreateHeader (Name h)) of
        Some e \<Rightarrow> Inl e
      | None \<Rightarrow>
          if \<not> HasSuffix (Name h) ''/'' \<and> Method h \<noteq> Store \<and> Method h \<noteq> Deflate
          then Inl ErrAlgorithm
          else Inr (written @ [\<lparr>FileHeader = createdHeader h, content = []\<rparr>]))"

definition zip_Write :: "bytes \<Rightarrow> zip_File list \<Rightarrow> zip_File list" where
  "zip_Write data written =
     (case rev written of
        [] \<Rightarrow> []
      | x # xs \<Rightarrow> rev xs @ [x\<lparr>content := content x @ data\<rparr>])"

text \<open>
  The callback that \<^verbatim>\<open>writeSignedArchive\<close> gives to \<^verbatim>\<open>eachZipEntry\<close>. The deferred
  \<^verbatim>\<open>r.Close()\<close> runs after \<^verbatim>\<open>io.Copy\<close>, and its error is dropped. \<^verbatim>\<open>CreateHeader\<close> rewrites
  the header of the entry in place; the name, which the selector reads afterwards, is not
  changed by it.
\<close>

definition repackZipEntry ::
    "env \<Rightarrow> archive \<Rightarrow> zip_File \<Rightarrow> zip_File list \<times> world
      \<Rightarrow> unit outcome \<times> (zip_File list \<times> world)" where
  "repackZipEntry E a f s =
     (case s of
        (written, W) \<Rightarrow>
          (case zip_CreateHeader E (FileHeader f) written of
             Inl e \<Rightarrow> (Fail e, s)
           | Inr written1 \<Rightarrow>
               (case entrySignInfo a (Name (FileHeader f)) of
                  Panic e \<Rightarrow> (Panic e, (written1, W))
                | Fail e \<Rightarrow> (Fail e, (written1, W))
                | Done info \<Rightarrow>
                    (case (case info of
                             Some i \<Rightarrow> os_Open E (fullPath i) W
                           | None \<Rightarrow> zip_File_Open E a f W) of
                       (Panic e, W1) \<Rightarrow> (Panic e, (written1, W1))
                     | (Fail e, W1) \<Rightarrow> (Fail e, (written1, W1))
                     | (Done r, W1) \<Rightarrow>
                         (case io_Copy E ZipWriter r of
                            (data, err) \<Rightarrow>
                              (of_err err,
                               (zip_Write data written1, snd (close E (rsrc r) W1))))))))"

text \<open>
  The callback of the tar.gz branch: the body of
  \<^verbatim>\<open>if info := a.entrySignInfo(header.Name); info != nil { }\<close> is empty, so nothing is
  written to the tar writer.
\<close>

definition repackTarEntry :: "archive \<Rightarrow> tar_Header \<Rightarrow> reader \<Rightarrow> world \<Rightarrow> unit outcome \<times> world" where
  "repackTarEntry a header r W =
     (case entrySignInfo a (tar_Name header) of
        Panic e \<Rightarrow> (Panic e, W)
      | Fail e \<Rightarrow> (Fail e, W)
      | Done info \<Rightarrow> (Done (), W))"

text \<open>
  \<^verbatim>\<open>writeSignedArchive\<close>. The second component of the result is what has been written to
  the writer \<^verbatim>\<open>w\<close>. The source has no \<^verbatim>\<open>return\<close> at the end of the function; control
  reaches it only when no error has been returned, and it is taken as \<^verbatim>\<open>return nil\<close>.
\<close>

definition truncatedErr :: error where
  "truncatedErr = IOError ''unexpected EOF''"

definition writeSignedArchive :: "env \<Rightarrow> archive \<Rightarrow> world \<Rightarrow> unit outcome \<times> filedata \<times> world" where
  "writeSignedArchive E a W =
     (if archiveType a = zipArchive then
        (case openZip E a W of
           (Panic e, W1) \<Rightarrow> (Panic e, Plain [], W1)
         | (Fail e, W1) \<Rightarrow> (Fail e, Plain [], W1)
         | (Done zr, W1) \<Rightarrow>
             (case eachZipEntry zr (repackZipEntry E a)
                     ([], W1\<lparr>trace := trace W1 @ [Opened ZipWriter]\<rparr>) of
                (Panic e, (written, W2)) \<Rightarrow>
                  (Panic e, ZipFile written False,
                   snd (close E (ZipReader (Clean (path a))) W2))
              | (err, (written, W2)) \<Rightarrow>
                  (case close E ZipWriter W2 of
                     (closeErr, W3) \<Rightarrow>
                       (orClose err closeErr, ZipFile written (closeErr = None),
                        snd (close E (ZipReader (Clean (path a))) W3)))))
      else if macOS a then
        (case openTarGz E a W of
           (Panic e, W1) \<Rightarrow> (Panic e, Plain [], W1)
         | (Fail e, W1) \<Rightarrow> (Fail e, Plain [], W1)
         | (Done (cl, tr), W1) \<Rightarrow>
             (case eachTarGzEntry tr (repackTarEntry a)
                     (W1\<lparr>trace := trace W1 @ [Opened GzipWriter, Opened TarWriter]\<rparr>) of
                (Panic e, W2) \<Rightarrow> (Panic e, TarGzFile [] truncatedErr, snd (close E cl W2))
              | (err, W2) \<Rightarrow>
                  (case close E TarWriter W2 of
                     (closeErr1, W3) \<Rightarrow>
                       (case close E GzipWriter W3 of
                          (closeErr2, W4) \<Rightarrow>
                            (orClose (orClose err closeErr1) closeErr2,
                             TarGzFile [] (if closeErr1 = None \<and> closeErr2 = None then EOF
                                           else truncatedErr),
                             snd (close E cl W4))))))
      else (Done (), Plain [], W))"

text \<open>
  \<^verbatim>\<open>repackSignedEntries\<close>. What \<^verbatim>\<open>writeSignedArchive\<close> has written to \<^verbatim>\<open>f\<close> becomes the
  content of the file behind \<^verbatim>\<open>f\<close>.
\<close>

definition targetPathOf :: "env \<Rightarrow> archive \<Rightarrow> string" where
  "targetPathOf E a = Join [destinationDir E, path a @ ''.withSignedContent'']"

definition repackSignedEntries :: "env \<Rightarrow> archive \<Rightarrow> world \<Rightarrow> unit outcome \<times> world" where
  "repackSignedEntries E a W =
     (if archiveType a = zipArchive \<or> macOS a then
        (case os_Create E (targetPathOf E a) W of
           (Panic e, W1) \<Rightarrow> (Panic e, W1)
         | (Fail e, W1) \<Rightarrow> (Fail e, W1)
         | (Done f, W1) \<Rightarrow>
             (case writeSignedArchive E a W1 of
                (Panic e, written, W2) \<Rightarrow> (Panic e, set_content f written W2)
              | (err, written, W2) \<Rightarrow>
                  (case close E f (set_content f written W2) of
                     (closeErr, W3) \<Rightarrow> (orClose err closeErr, W3))))
      else (Done (), W))"

subsection \<open>The notarization and signature stages\<close>

text \<open>
  \<^verbatim>\<open>prepareNotarization\<close> and \<^verbatim>\<open>prepareSignatures\<close> are declared with the result
  \<^verbatim>\<open>([]*fileToSign, error)\<close> and their bodies are empty: no statement makes a request or
  reports an error. Their result is taken as the zero value of the result type, no
  request and no error, as for the missing \<^verbatim>\<open>return\<close> of \<^verbatim>\<open>writeSignedArchive\<close>.
\<close>

definition prepareNotarization :: "archive \<Rightarrow> fileToSign list outcome" where
  "prepareNotarization a = Done []"

definition prepareSignatures :: "archive \<Rightarrow> fileToSign list outcome" where
  "prepareSignatures a = Done []"

subsection \<open>Example data\<close>

text \<open>Concrete archives, environments and file systems, on which the theorems are instantiated.\<close>

definition noFaults :: env where
  "noFaults = \<lparr>fault = (\<lambda>k. None), cut = (\<lambda>k. 0), raw = (\<lambda>d. []), destinationDir = ''signed''\<rparr>"

definition zhdr :: "string \<Rightarrow> zip_FileHeader" where
  "zhdr n =
     \<lparr>Name = n, Comment = [], NonUTF8 = False, CreatorVersion = 788, ReaderVersion = 20,
      Flags = 0, Method = 8, Modified = 1700000000, ExternalAttrs = 420, Extra = []\<rparr>"

definition zfile :: "string \<Rightarrow> bytes \<Rightarrow> zip_File" where
  "zfile n d = \<lparr>FileHeader = zhdr n, content = d\<rparr>"

text \<open>The entry that the zip writer makes of the header \<open>zhdr n\<close> and the bytes \<open>d\<close>.\<close>

definition zout :: "string \<Rightarrow> bytes \<Rightarrow> zip_File" where
  "zout n d =
     \<lparr>FileHeader =
        \<lparr>Name = n, Comment = [], NonUTF8 = False, CreatorVersion = 788, ReaderVersion = 20,
         Flags = 8, Method = 8, Modified = 1700000000, ExternalAttrs = 420,
         Extra = [CHR 0x55, CHR 0x54, CHR 0x05, CHR 0x00, CHR 0x01,
                  CHR 0x00, CHR 0xF1, CHR 0x53, CHR 0x65]\<rparr>,
      content = d\<rparr>"

definition tentry :: "string \<Rightarrow> bytes \<Rightarrow> tar_entry" where
  "tentry n d =
     \<lparr>Header = \<lparr>tar_Name = n, tar_Mode = 493, tar_Size = int (length d), tar_ModTime = 0\<rparr>,
      body = d\<rparr>"

definition zipExample :: archive where
  "zipExample = \<lparr>path = ''go1.zip'', archiveType = zipArchive, macOS = False, extractEntries = []\<rparr>"

definition linuxExample :: archive where
  "linuxExample =
     \<lparr>path = ''go1.linux-amd64.tar.gz'', archiveType = tarGzArchive, macOS = False,
      extractEntries = []\<rparr>"

definition darwinExample :: archive where
  "darwinExample =
     \<lparr>path = ''go1.darwin-arm64.tar.gz'', archiveType = tarGzArchive, macOS = True,
      extractEntries = []\<rparr>"

text \<open>A callback that counts the entries it visits and fails on the entry named \<^verbatim>\<open>bad\<close>.\<close>

definition countZip :: "zip_File \<Rightarrow> nat \<Rightarrow> unit outcome \<times> nat" where
  "countZip f n =
     (if Name (FileHeader f) = ''bad'' then (Fail (IOError ''stop''), n) else (Done (), Suc n))"

definition countTar :: "tar_Header \<Rightarrow> reader \<Rightarrow> nat \<Rightarrow> unit outcome \<times> nat" where
  "countTar h r n =
     (if tar_Name h = ''bad'' then (Fail (IOError ''stop''), n) else (Done (), Suc n))"

text \<open>
  The words "the callbacks have succeeded on the entries", said without the iterators:
  \<open>callbacks f xs s\<close> is the state in which the calls of \<open>f\<close> on the entries \<open>xs\<close>, one
  after the other from the state \<open>s\<close>, end when each of them returns nil, and \<open>None\<close>
  when one of them returns an error or panics. \<open>tarCallback q f x\<close> is the call of the
  callback \<open>f\<close> on the entry \<open>x\<close> of the tar reader over the file \<open>q\<close>: it gets the header
  of the entry and the reader positioned at it.
\<close>

fun callbacks :: "('x \<Rightarrow> 's \<Rightarrow> unit outcome \<times> 's) \<Rightarrow> 'x list \<Rightarrow> 's \<Rightarrow> 's option" where
  "callbacks f [] s = Some s"
| "callbacks f (x # xs) s =
     (case f x s of
        (Done u, s1) \<Rightarrow> callbacks f xs s1
      | (Fail e, s1) \<Rightarrow> None
      | (Panic e, s1) \<Rightarrow> None)"

definition tarCallback ::
    "string \<Rightarrow> (tar_Header \<Rightarrow> reader \<Rightarrow> 's \<Rightarrow> unit outcome \<times> 's) \<Rightarrow> tar_entry \<Rightarrow> 's
      \<Rightarrow> unit outcome \<times> 's" where
  "tarCallback q f x s =
     f (Header x) \<lparr>rsrc = TarEntry q (tar_Name (Header x)), rfile = Plain (body x), rerr = None\<rparr> s"

text \<open>
  The spec's words for the repack stage: an entry for which the selector yields a request
  gets the bytes of the staged file, any other entry keeps its own bytes; the header is in
  both cases the header of the entry as the zip writer rewrites it. \<open>staged_bytes\<close> reads
  the staged file from the file system. \<open>copiedEntry\<close> is an entry copied with its own
  bytes.
\<close>

definition staged_bytes :: "env \<Rightarrow> world \<Rightarrow> string \<Rightarrow> bytes" where
  "staged_bytes E W p =
     (case fs W (Clean p) of Some (FileNode d) \<Rightarrow> file_bytes E d | _ \<Rightarrow> [])"



text \<open>
  File systems for the examples: a zip archive with a signed file staged for \<^verbatim>\<open>a.exe\<close>,
  a zip archive without any signable entry, and a tar.gz archive for Linux.
\<close>

definition zipWorld :: world where
  "zipWorld =
     \<lparr>fs = [''go1.zip'' \<mapsto> FileNode (ZipFile [zfile ''a.exe'' ''AAA'', zfile ''b.txt'' ''BBB''] True),
            ''signed'' \<mapsto> DirNode,
            ''go1.zip.extracted'' \<mapsto> DirNode,
            ''go1.zip.extracted/a.exe'' \<mapsto> FileNode (Plain ''SIGNED'')],
      trace = []\<rparr>"



text \<open>An environment in which copying the entry \<^verbatim>\<open>b.txt\<close> fails after one byte.\<close>

definition diskFull :: env where
  "diskFull =
     \<lparr>fault = (\<lambda>k. if k = IoCopy ZipWriter (ZipEntry ''go1.zip'' ''b.txt'')
                     then Some (IOError ''no space left on device'') else None),
      cut = (\<lambda>k. 1), raw = (\<lambda>d. []), destinationDir = ''signed''\<rparr>"

text \<open>
  The trace of a run records every open and every close. \<open>balance r t\<close> is the number of
  times the resource \<open>r\<close> has been opened in \<open>t\<close> minus the number of times it has been
  closed: a run closes what it opens when it leaves the balance of every resource as it was.
\<close>

definition balance :: "res \<Rightarrow> event list \<Rightarrow> int" where
  "balance r t = int (length (filter (\<lambda>e. e = Opened r) t))
                 - int (length (filter (\<lambda>e. e = Closed r) t))"



text \<open>More example data: a tar.gz archive for macOS, a reader, and an environment in which
  closing the zip reader of \<^verbatim>\<open>go1.zip\<close> fails.\<close>

definition darwinWorld :: world where
  "darwinWorld =
     \<lparr>fs = [''go1.darwin-arm64.tar.gz'' \<mapsto>
              FileNode (TarGzFile [tentry ''go/bin/go'' ''GO'', tentry ''README'' ''hi''] EOF),
            ''signed'' \<mapsto> DirNode],
      trace = []\<rparr>"

definition readerExample :: reader where
  "readerExample = \<lparr>rsrc = ZipEntry ''go1.zip'' ''a.exe'', rfile = Plain ''AAA'', rerr = None\<rparr>"

definition closeFault :: env where
  "closeFault =
     \<lparr>fault = (\<lambda>k. if k = Close (ZipReader ''go1.zip'') then Some (IOError ''close failed'') else None),
      cut = (\<lambda>k. 0), raw = (\<lambda>d. []), destinationDir = ''signed''\<rparr>"

text \<open>
  File systems for the extraction examples: only the archive is there. The second archive
  has its one signable entry in a directory.
\<close>

definition freshWorld :: world where
  "freshWorld =
     \<lparr>fs = [''go1.zip'' \<mapsto> FileNode (ZipFile [zfile ''a.exe'' ''AAA'', zfile ''b.txt'' ''BBB''] True)],
      trace = []\<rparr>"

definition nestedWorld :: world where
  "nestedWorld =
     \<lparr>fs = [''go1.zip'' \<mapsto> FileNode (ZipFile [zfile ''go/bin/go.exe'' ''EXE''] True)],
      trace = []\<rparr>"

text \<open>
  The spec's words for the extraction stage. \<open>selected\<close> is the list of requests for the
  entry names the selector matches, in order; \<open>stageEntry\<close> writes a matched entry's bytes
  at the staged path of its request (\<open>stageTarEntry\<close> writes where the tar.gz branch of
  \<^verbatim>\<open>prepareEntriesToSign\<close> writes); \<open>stagingDirs\<close> is the file system after the staging
  directory has been made; \<open>dirs_of\<close> is the set of directories.
\<close>

definition dirs_of :: "world \<Rightarrow> string set" where
  "dirs_of W = {k. fs W k = Some DirNode}"

definition stageEntry :: "archive \<Rightarrow> (string \<rightharpoonup> node) \<Rightarrow> zip_File \<Rightarrow> (string \<rightharpoonup> node)" where
  "stageEntry a m f =
     (case entrySignInfo a (Name (FileHeader f)) of
        Done (Some i) \<Rightarrow> m(Clean (fullPath i) \<mapsto> FileNode (Plain (content f)))
      | _ \<Rightarrow> m)"

definition stageTarEntry :: "archive \<Rightarrow> (string \<rightharpoonup> node) \<Rightarrow> tar_entry \<Rightarrow> (string \<rightharpoonup> node)" where
  "stageTarEntry a m x =
     (case entrySignInfo a (tar_Name (Header x)) of
        Done (Some i) \<Rightarrow>
          m(Clean (Join [fullPath i, tar_Name (Header x)]) \<mapsto> FileNode (Plain (body x)))
      | _ \<Rightarrow> m)"

definition selected :: "archive \<Rightarrow> string list \<Rightarrow> fileToSign list" where
  "selected a names =
     List.map_filter (\<lambda>n. case entrySignInfo a n of Done i \<Rightarrow> i | _ \<Rightarrow> None) names"

definition stagingDirs :: "archive \<Rightarrow> (string \<rightharpoonup> node) \<Rightarrow> (string \<rightharpoonup> node)" where
  "stagingDirs a m = snd (mkdirs (ancestors_from [] (Clean (entryExtractDir a))) m)"

text \<open>
  A macOS archive whose file system already has the directory in which the tar.gz branch
  writes the entry \<^verbatim>\<open>go/bin/go\<close>.
\<close>

definition darwinStaged :: world where
  "darwinStaged =
     \<lparr>fs = [''go1.darwin-arm64.tar.gz'' \<mapsto> FileNode (TarGzFile [tentry ''go/bin/go'' ''GO''] EOF),
            ''go1.darwin-arm64.tar.gz.extracted/go/bin/go/go/bin'' \<mapsto> DirNode],
      trace = []\<rparr>"

section \<open>Properties\<close>

subsection \<open>What \<^verbatim>\<open>filepath.Match\<close> computes on the patterns of the entry selector\<close>

definition literal :: "char \<Rightarrow> bool" where
  "literal c = (c \<noteq> CHR ''['' \<and> c \<noteq> CHR ''?'' \<and> c \<noteq> backslash \<and> c \<noteq> CHR ''*'')"

lemma matchChunk_loop_literal:
  "\<forall>c \<in> set chunk. literal c \<Longrightarrow>
   matchChunk_loop chunk s failed =
     Inr (if \<not> failed \<and> prefix chunk s then (drop (length chunk) s, True) else ([], False))"
proof (induction chunk arbitrary: s failed)
  case Nil
  then show ?case by simp
next
  case (Cons c chunk)
  then have c: "c \<noteq> CHR ''[''" "c \<noteq> CHR ''?''" "c \<noteq> backslash"
    and rest: "\<forall>c \<in> set chunk. literal c"
    by (auto simp: literal_def)
  show ?case
  proof (cases "failed \<or> s = []")
    case True
    then show ?thesis using c Cons.IH[OF rest] by auto
  next
    case False
    then obtain x xs where s: "s = x # xs" by (cases s) auto
    show ?thesis using c False s Cons.IH[OF rest] by auto
  qed
qed

lemma matchChunk_literal:
  "\<forall>c \<in> set chunk. literal c \<Longrightarrow>
   matchChunk chunk s = Inr (if prefix chunk s then (drop (length chunk) s, True) else ([], False))"
  by (simp add: matchChunk_def matchChunk_loop_literal)

lemma Match_star: "Match ''*'' n = Inr (Separator \<notin> set n)"
  by (subst Match.simps) (simp add: scanChunk_def)

lemma starLoop_slash:
  "starLoop ''/'' False s =
     Inr (if s = [] \<or> hd s = Separator then None
          else (case dropWhile (\<lambda>c. c \<noteq> Separator) s of [] \<Rightarrow> None | x # t \<Rightarrow> Some t))"
proof (induction s)
  case Nil
  then show ?case by simp
next
  case (Cons c cs)
  have lit: "\<forall>c \<in> set ''/''. literal c" by (simp add: literal_def backslash_def)
  show ?case
  proof (cases "c = Separator")
    case True
    then show ?thesis by simp
  next
    case False
    show ?thesis
    proof (cases cs)
      case Nil
      then show ?thesis using False by (simp add: matchChunk_literal[OF lit])
    next
      case (Cons d ds)
      then show ?thesis using False Cons.IH
        by (auto simp add: matchChunk_literal[OF lit] Separator_def)
    qed
  qed
qed

lemma Match_star_slash_star:
  "Match ''*/*'' n =
     Inr (case dropWhile (\<lambda>c. c \<noteq> Separator) n of [] \<Rightarrow> False | x # t \<Rightarrow> Separator \<notin> set t)"
proof -
  have lit: "\<forall>c \<in> set ''/''. literal c" by (simp add: literal_def backslash_def)
  have sc: "scanChunk ''*/*'' = (True, ''/'', ''*'')"
    by (simp add: scanChunk_def backslash_def)
  have unfold: "Match ''*/*'' n =
      (case matchChunk ''/'' n of
         Inl e \<Rightarrow> Inl e
       | Inr (t, ok) \<Rightarrow>
           if ok then Match ''*'' t
           else (case starLoop ''/'' False n of
                   Inl e \<Rightarrow> Inl e
                 | Inr None \<Rightarrow> Inr False
                 | Inr (Some t') \<Rightarrow> Match ''*'' t'))"
    by (subst Match.simps) (simp add: sc split: sum.splits prod.splits)
  show ?thesis
  proof (cases "prefix ''/'' n")
    case True
    then obtain cs where n: "n = CHR ''/'' # cs" by (auto simp: prefix_def)
    show ?thesis
      unfolding unfold matchChunk_literal[OF lit] by (simp add: n Match_star Separator_def)
  next
    case False
    then have hd: "n = [] \<or> hd n \<noteq> Separator"
      by (cases n) (auto simp: Separator_def)
    show ?thesis
    proof (cases "dropWhile (\<lambda>c. c \<noteq> Separator) n")
      case Nil
      show ?thesis
        unfolding unfold matchChunk_literal[OF lit] starLoop_slash using False hd
        by (auto simp add: Nil)
    next
      case (Cons x t)
      then have "n \<noteq> []" by auto
      with hd have "hd n \<noteq> Separator" by simp
      with \<open>n \<noteq> []\<close> False show ?thesis
        unfolding unfold matchChunk_literal[OF lit] starLoop_slash
        by (simp add: Match_star Cons)
    qed
  qed
qed

lemma Match_go_bin:
  "Match ''go/bin/*'' n = Inr (prefix ''go/bin/'' n \<and> Separator \<notin> set (drop (length ''go/bin/'') n))"
proof -
  have lit: "\<forall>c \<in> set ''go/bin/''. literal c" by (simp add: literal_def backslash_def)
  have sc: "scanChunk ''go/bin/*'' = (False, ''go/bin/'', ''*'')"
    by (simp add: scanChunk_def backslash_def)
  show ?thesis
    by (subst Match.simps) (simp add: sc matchChunk_literal[OF lit] Match_star)
qed

lemma Match_pkg_tool:
  "Match ''pkg/tool/*/*'' n =
     Inr (prefix ''pkg/tool/'' n \<and>
          (case dropWhile (\<lambda>c. c \<noteq> Separator) (drop (length ''pkg/tool/'') n) of [] \<Rightarrow> False | x # t \<Rightarrow> Separator \<notin> set t))"
proof -
  have lit: "\<forall>c \<in> set ''pkg/tool/''. literal c" by (simp add: literal_def backslash_def)
  have sc: "scanChunk ''pkg/tool/*/*'' = (False, ''pkg/tool/'', ''*/*'')"
    by (simp add: scanChunk_def backslash_def)
  show ?thesis
    by (subst Match.simps) (simp add: sc matchChunk_literal[OF lit] Match_star_slash_star)
qed







subsection \<open>The archive classifier\<close>

text \<open>
  Claim C2. The classifier is claimed to be total and to classify by the base file name:
  a name matching \<^verbatim>\<open>go*.zip\<close> is a zip archive, a name matching \<^verbatim>\<open>go*.tar.gz\<close> is a tar.gz
  archive, anything else is an error and nothing panics. \<^verbatim>\<open>newArchive\<close> calls
  \<^verbatim>\<open>matchOrPanic(p, "go*.zip")\<close> and \<^verbatim>\<open>matchOrPanic(p, "go*.tar.gz")\<close> with the path in the
  place of the pattern, so the name \<^verbatim>\<open>go1.22.zip\<close> is rejected as unknown, a path that is a
  malformed pattern makes it panic, and the only zip archives are the paths that, read as
  patterns, match the text \<^verbatim>\<open>go*.zip\<close>.
\<close>

theorem newArchive_swapped_arguments:
  "newArchive ''go1.22.zip'' = Fail (UnknownArchiveType ''go1.22.zip'')
   \<and> newArchive ''go[1.zip'' = Panic ErrBadPattern
   \<and> newArchive ''go*.zip''
       = Done \<lparr>path = ''go*.zip'', archiveType = zipArchive, macOS = False, extractEntries = []\<rparr>"
  by code_simp

subsection \<open>The entry selector\<close>



subsection \<open>Entry iteration\<close>

lemma eachZipEntry_append:
  "eachZipEntry (pre @ post) g s =
     (case eachZipEntry pre g s of
        (Done u, sp) \<Rightarrow> eachZipEntry post g sp
      | other \<Rightarrow> other)"
  by (induction pre arbitrary: s) (auto split: prod.splits outcome.splits)

lemma eachTarGzEntry_loop_append:
  "eachTarGzEntry_loop q (pre @ post) fin f s =
     (case eachTarGzEntry_loop q pre EOF f s of
        (Done u, sp) \<Rightarrow> eachTarGzEntry_loop q post fin f sp
      | other \<Rightarrow> other)"
  by (induction pre arbitrary: s) (auto simp: errors_Is_def split: prod.splits outcome.splits)

lemma eachZipEntry_callbacks:
  "callbacks g pre s = Some sp \<Longrightarrow> eachZipEntry (pre @ post) g s = eachZipEntry post g sp"
  by (induction pre arbitrary: s) (auto split: prod.splits outcome.splits)

lemma eachTarGzEntry_loop_callbacks:
  "callbacks (tarCallback q f) pre s = Some sp
    \<Longrightarrow> eachTarGzEntry_loop q (pre @ post) fin f s = eachTarGzEntry_loop q post fin f sp"
  by (induction pre arbitrary: s) (auto simp: tarCallback_def split: prod.splits outcome.splits)

text \<open>
  Claim C10. Reaching the end of the archive is success: for every tar stream and every
  callback, when the callbacks have succeeded on the entries of the stream and the tar
  reader then reports \<^verbatim>\<open>io.EOF\<close>, \<^verbatim>\<open>eachTarGzEntry\<close> returns nil, in the state the last
  callback left; any other error of the reader is returned unchanged. \<^verbatim>\<open>eachZipEntry\<close>
  returns nil when the callbacks have succeeded on all entries. In both iterators the
  first error of a callback aborts the iteration: it is returned unchanged, in the state
  that the failing callback left, so no later entry is visited, whatever follows.
\<close>

theorem each_entry_first_error:
  "eachTarGzEntry \<lparr>tsrc = q, pending = [], endErr = EOF\<rparr> f t = (Done (), t)
   \<and> (callbacks (tarCallback q f) entries t = Some tp
      \<longrightarrow> eachTarGzEntry \<lparr>tsrc = q, pending = entries, endErr = EOF\<rparr> f t = (Done (), tp))
   \<and> (callbacks (tarCallback q f) entries t = Some tp \<and> fin \<noteq> EOF
      \<longrightarrow> eachTarGzEntry \<lparr>tsrc = q, pending = entries, endErr = fin\<rparr> f t = (Fail fin, tp))
   \<and> (callbacks (tarCallback q f) entries t = Some tp \<and> tarCallback q f y tp = (Fail e, t1)
      \<longrightarrow> eachTarGzEntry \<lparr>tsrc = q, pending = entries @ y # tpost, endErr = fin\<rparr> f t
            = (Fail e, t1))
   \<and> (callbacks g pre s = Some sp \<longrightarrow> eachZipEntry pre g s = (Done (), sp))
   \<and> (callbacks g pre s = Some sp \<and> g x sp = (Fail e', s1)
      \<longrightarrow> eachZipEntry (pre @ x # post) g s = (Fail e', s1))"
proof (intro conjI impI)
  show "eachTarGzEntry \<lparr>tsrc = q, pending = [], endErr = EOF\<rparr> f t = (Done (), t)"
    by (simp add: eachTarGzEntry_def errors_Is_def)
next
  assume "callbacks (tarCallback q f) entries t = Some tp"
  then show "eachTarGzEntry \<lparr>tsrc = q, pending = entries, endErr = EOF\<rparr> f t = (Done (), tp)"
    using eachTarGzEntry_loop_callbacks [of q f entries t tp "[]" EOF]
    by (simp add: eachTarGzEntry_def errors_Is_def)
next
  assume "callbacks (tarCallback q f) entries t = Some tp \<and> fin \<noteq> EOF"
  then show "eachTarGzEntry \<lparr>tsrc = q, pending = entries, endErr = fin\<rparr> f t = (Fail fin, tp)"
    using eachTarGzEntry_loop_callbacks [of q f entries t tp "[]" fin]
    by (simp add: eachTarGzEntry_def errors_Is_def)
next
  assume "callbacks (tarCallback q f) entries t = Some tp \<and> tarCallback q f y tp = (Fail e, t1)"
  then show "eachTarGzEntry \<lparr>tsrc = q, pending = entries @ y # tpost, endErr = fin\<rparr> f t
      = (Fail e, t1)"
    using eachTarGzEntry_loop_callbacks [of q f entries t tp "y # tpost" fin]
    by (simp add: eachTarGzEntry_def tarCallback_def)
next
  assume "callbacks g pre s = Some sp"
  then show "eachZipEntry pre g s = (Done (), sp)"
    using eachZipEntry_callbacks [of g pre s sp "[]"] by simp
next
  assume "callbacks g pre s = Some sp \<and> g x sp = (Fail e', s1)"
  then show "eachZipEntry (pre @ x # post) g s = (Fail e', s1)"
    using eachZipEntry_callbacks [of g pre s sp "x # post"] by simp
qed

theorem each_entry_first_error_witness:
  "callbacks (tarCallback ''t'' countTar) [tentry ''a'' ''x'', tentry ''b'' ''y''] 0 = Some 2
   \<and> eachTarGzEntry \<lparr>tsrc = ''t'', pending = [tentry ''a'' ''x'', tentry ''b'' ''y''],
                      endErr = EOF\<rparr> countTar 0 = (Done (), 2)
   \<and> truncatedErr \<noteq> EOF
   \<and> eachTarGzEntry \<lparr>tsrc = ''t'', pending = [tentry ''a'' ''x'', tentry ''b'' ''y''],
                      endErr = truncatedErr\<rparr> countTar 0 = (Fail truncatedErr, 2)
   \<and> tarCallback ''t'' countTar (tentry ''bad'' ''z'') 2 = (Fail (IOError ''stop''), 2)
   \<and> eachTarGzEntry
        \<lparr>tsrc = ''t'',
         pending = [tentry ''a'' ''x'', tentry ''b'' ''y''] @ tentry ''bad'' ''z'' # [tentry ''c'' ''w''],
         endErr = EOF\<rparr> countTar 0 = (Fail (IOError ''stop''), 2)
   \<and> callbacks countZip [zfile ''a'' ''x''] 0 = Some 1
   \<and> eachZipEntry [zfile ''a'' ''x''] countZip 0 = (Done (), 1)
   \<and> countZip (zfile ''bad'' ''y'') 1 = (Fail (IOError ''stop''), 1)
   \<and> eachZipEntry ([zfile ''a'' ''x''] @ zfile ''bad'' ''y'' # [zfile ''c'' ''z'']) countZip 0
       = (Fail (IOError ''stop''), 1)"
proof -
  have c: "callbacks (tarCallback ''t'' countTar) [tentry ''a'' ''x'', tentry ''b'' ''y''] 0 = Some 2"
    "truncatedErr \<noteq> EOF"
    "tarCallback ''t'' countTar (tentry ''bad'' ''z'') 2 = (Fail (IOError ''stop''), 2)"
    "callbacks countZip [zfile ''a'' ''x''] 0 = Some 1"
    "countZip (zfile ''bad'' ''y'') 1 = (Fail (IOError ''stop''), 1)"
    by (simp_all add: tarCallback_def countTar_def countZip_def tentry_def zfile_def zhdr_def
        truncatedErr_def numeral_2_eq_2)
  show ?thesis
    using c
      each_entry_first_error [of "''t''" countTar 0 "[tentry ''a'' ''x'', tentry ''b'' ''y'']" 2
        truncatedErr "tentry ''bad'' ''z''" "IOError ''stop''" 2 "[tentry ''c'' ''w'']"
        countZip "[zfile ''a'' ''x'']" 0 1 "zfile ''bad'' ''y''" "IOError ''stop''" 1
        "[zfile ''c'' ''z'']"]
      each_entry_first_error [of "''t''" countTar 0 "[tentry ''a'' ''x'', tentry ''b'' ''y'']" 2
        EOF "tentry ''bad'' ''z''" "IOError ''stop''" 2 "[tentry ''c'' ''w'']"
        countZip "[zfile ''a'' ''x'']" 0 1 "zfile ''bad'' ''y''" "IOError ''stop''" 1
        "[zfile ''c'' ''z'']"]
    by simp
qed

subsection \<open>The notarization and signature stages\<close>

text \<open>
  Claim C8. The claim says that the signature stage produces exactly one request for
  every archive and that the notarization stage produces exactly one request for a macOS
  archive, as the description of the command in \<^verbatim>\<open>sign.go\<close> announces (\<^verbatim>\<open>2. Notarize\<close>,
  \<^verbatim>\<open>3. Signatures\<close>). The two functions of \<^verbatim>\<open>sign.go\<close> produce no request for any archive,
  and so for the zip archive, the Linux archive and the macOS archive of the examples.
\<close>

theorem whole_archive_stages_produce_nothing:
  "prepareSignatures a = Done [] \<and> prepareNotarization a = Done []
   \<and> prepareSignatures zipExample = Done []
   \<and> prepareSignatures linuxExample = Done []
   \<and> macOS darwinExample
   \<and> prepareSignatures darwinExample = Done []
   \<and> prepareNotarization darwinExample = Done []"
  by (simp add: prepareSignatures_def prepareNotarization_def darwinExample_def)

subsection \<open>The repack stage\<close>

lemma entrySignInfo_Done: "\<exists>info. entrySignInfo a name = Done info"
  unfolding entrySignInfo_def matchOrPanic_def Match_go_bin Match_pkg_tool
  by simp




lemma createdHeader_Extra:
  "Extra (createdHeader h)
     = (if Modified h \<noteq> zeroTime then Extra h @ extTimeExtra (Modified h) else Extra h)"
  by (simp add: createdHeader_def Let_def)



lemma length_extTimeExtra: "length (extTimeExtra t) = 9"
  by (simp add: extTimeExtra_def Let_def)

lemma createdHeader_differs: "Modified h \<noteq> zeroTime \<Longrightarrow> createdHeader h \<noteq> h"
proof
  assume m: "Modified h \<noteq> zeroTime" and e: "createdHeader h = h"
  have "length (Extra (createdHeader h)) = length (Extra h) + 9"
    using m by (simp add: createdHeader_Extra length_extTimeExtra)
  then show False using e by simp
qed

lemma zfile_sel:
  "FileHeader (zfile n d) = zhdr n" "content (zfile n d) = d"
  "Name (zhdr n) = n" "Method (zhdr n) = 8"
  by (simp_all add: zfile_def zhdr_def)

lemma created_a_exe: "\<lparr>FileHeader = createdHeader (zhdr ''a.exe''), content = d\<rparr> = zout ''a.exe'' d"
  by code_simp

lemma created_b_txt: "\<lparr>FileHeader = createdHeader (zhdr ''b.txt''), content = d\<rparr> = zout ''b.txt'' d"
  by code_simp

lemma created_c_txt:
  "\<lparr>FileHeader = createdHeader (zhdr ''doc/c.txt''), content = d\<rparr> = zout ''doc/c.txt'' d"
  by code_simp

lemma zout_sel: "content (zout n d) = d" "(zout n d)\<lparr>content := c\<rparr> = zout n c"
  by (simp_all add: zout_def)

lemmas created_zhdr = created_a_exe created_b_txt created_c_txt zout_sel


lemma os_Open_fs: "fs (snd (os_Open E p W)) = fs W"
  by (simp add: os_Open_def Let_def split: option.splits node.splits)

lemma zip_File_Open_fs: "fs (snd (zip_File_Open E a f W)) = fs W"
  by (simp add: zip_File_Open_def Let_def split: option.splits)

lemma close_fs: "fs (snd (close E r W)) = fs W"
  by (simp add: close_def)

lemma repackZipEntry_fs:
  "fs (snd (snd (repackZipEntry E a f (written, W)))) = fs W"
proof -
  obtain info where i: "entrySignInfo a (Name (FileHeader f)) = Done info"
    using entrySignInfo_Done by blast
  show ?thesis
  proof (cases info)
    case None
    then show ?thesis using i zip_File_Open_fs [of E a f W]
      by (auto simp: repackZipEntry_def close_def split: sum.splits prod.splits outcome.splits)
  next
    case (Some x)
    then show ?thesis using i os_Open_fs [of E "fullPath x" W]
      by (auto simp: repackZipEntry_def close_def split: sum.splits prod.splits outcome.splits)
  qed
qed




lemma staged_bytes_fs: "fs W1 = fs W \<Longrightarrow> staged_bytes E W1 = staged_bytes E W"
  by (simp add: staged_bytes_def fun_eq_iff)


lemma eachZipEntry_repack_fs:
  "fs (snd (snd (eachZipEntry zr (repackZipEntry E a) (written, W)))) = fs W"
proof (induction zr arbitrary: written W)
  case Nil
  then show ?case by simp
next
  case (Cons f zr)
  obtain oc w1 W1 where st: "repackZipEntry E a f (written, W) = (oc, (w1, W1))"
    by (metis prod.exhaust)
  have f1: "fs W1 = fs W" using repackZipEntry_fs [of E a f written W] st by simp
  show ?case
  proof (cases oc)
    case (Done u)
    have "eachZipEntry (f # zr) (repackZipEntry E a) (written, W)
        = eachZipEntry zr (repackZipEntry E a) (w1, W1)"
      using st Done by simp
    then show ?thesis using Cons.IH [of w1 W1] f1 by simp
  next
    case (Fail e)
    then show ?thesis using st f1 by simp
  next
    case (Panic e)
    then show ?thesis using st f1 by simp
  qed
qed




lemmas run_defs0 =
  writeSignedArchive_def repackSignedEntries_def openZip_def zip_OpenReader_def
  repackZipEntry_def zip_CreateHeader_def zip_Write_def os_Open_def os_Create_def
  zip_File_Open_def io_Copy_def close_def set_content_def orClose_def of_err_def
  file_bytes_def is_dir_def targetPathOf_def Dir_def Join_def Clean_def Separator_def
  entrySignInfo_def HasSuffix_def entryExtractDir_def matchOrPanic_def
  noFaults_def zipExample_def linuxExample_def tentry_def Let_def Store_def Deflate_def

lemmas run_defs = run_defs0 zfile_def zhdr_def

lemmas zip_defs = run_defs0 zfile_sel created_zhdr






lemma os_Create_Done:
  "os_Create E p W = (Done f, W1)
    \<Longrightarrow> f = OsFile (Clean p) \<and> fs W1 = (fs W)(Clean p \<mapsto> FileNode (Plain []))"
  by (auto simp: os_Create_def Let_def split: option.splits if_splits)

lemma writeSignedArchive_fs: "fs (snd (snd (writeSignedArchive E a W))) = fs W"
proof (cases "archiveType a = zipArchive")
  case True
  show ?thesis
  proof (cases "openZip E a W")
    case (Pair r W1)
    have f1: "fs W1 = fs W"
      using Pair by (auto simp: openZip_def zip_OpenReader_def Let_def
          split: option.splits node.splits filedata.splits if_splits bool.splits)
    show ?thesis
    proof (cases r)
      case (Done zr)
      let ?W1 = "W1\<lparr>trace := trace W1 @ [Opened ZipWriter]\<rparr>"
      obtain oc written W2 where lp:
        "eachZipEntry zr (repackZipEntry E a) ([], ?W1) = (oc, (written, W2))"
        by (metis prod.exhaust)
      have "fs W2 = fs ?W1" using eachZipEntry_repack_fs [of zr E a "[]" ?W1] lp by simp
      then show ?thesis using True Pair Done lp f1
        by (cases oc) (simp_all add: writeSignedArchive_def close_def)
    qed (use True Pair f1 in \<open>simp_all add: writeSignedArchive_def\<close>)
  qed
next
  case False
  note notzip = this
  show ?thesis
  proof (cases "macOS a")
    case False
    then show ?thesis using notzip by (simp add: writeSignedArchive_def)
  next
    case True
    show ?thesis
    proof (cases "openTarGz E a W")
      case (Pair r W1)
      have f1: "fs W1 = fs W"
        using Pair
        by (auto simp: openTarGz_def os_Open_def gzip_NewReader_def close_def Let_def
            split: option.splits node.splits filedata.splits if_splits prod.splits
              outcome.splits res.splits)
      show ?thesis
      proof (cases r)
        case (Done x)
        obtain cl tr where x: "x = (cl, tr)" by (cases x)
        let ?W1 = "W1\<lparr>trace := trace W1 @ [Opened GzipWriter, Opened TarWriter]\<rparr>"
        have unch: "\<And>es s. snd (eachTarGzEntry_loop (tsrc tr) es (endErr tr) (repackTarEntry a) s) = s"
        proof -
          fix es s
          show "snd (eachTarGzEntry_loop (tsrc tr) es (endErr tr) (repackTarEntry a) s) = s"
            using entrySignInfo_Done
            by (induction es arbitrary: s) (auto simp: repackTarEntry_def split: outcome.splits)
        qed
        obtain oc W2 where lp: "eachTarGzEntry tr (repackTarEntry a) ?W1 = (oc, W2)"
          by (metis prod.exhaust)
        have "W2 = ?W1" using unch [of "pending tr" ?W1] lp by (simp add: eachTarGzEntry_def)
        then show ?thesis using notzip True Pair Done x lp f1
          by (cases oc) (simp_all add: writeSignedArchive_def close_def)
      qed (use notzip True Pair f1 in \<open>simp_all add: writeSignedArchive_def\<close>)
    qed
  qed
qed







text \<open>
  Claim C4, amended. The repack creates the new archive directly at its target path:
  there is no temporary path and no publishing step. Once the file has been created,
  whatever \<^verbatim>\<open>writeSignedArchive\<close> has written is the content of the file at the target
  path after the repack, whether it succeeded or failed, and an error of
  \<^verbatim>\<open>writeSignedArchive\<close> is returned as it is.
\<close>

theorem repack_writes_in_place:
  assumes "archiveType a = zipArchive \<or> macOS a"
    and "os_Create E (targetPathOf E a) W = (Done f, W1)"
    and "writeSignedArchive E a W1 = (r, out, W2)"
  shows "fs (snd (repackSignedEntries E a W)) (Clean (targetPathOf E a)) = Some (FileNode out)
    \<and> (\<forall>e. r = Fail e \<longrightarrow> fst (repackSignedEntries E a W) = Fail e)"
proof -
  have f: "f = OsFile (Clean (targetPathOf E a))" using os_Create_Done [OF assms(2)] by simp
  show ?thesis using assms f
    by (cases r) (auto simp: repackSignedEntries_def set_content_def close_def orClose_def)
qed

text \<open>
  The claim as stated fails when copying the second entry fails: the repack returns
  the error and leaves at the target path an archive with the first entry and one byte of
  the second.
\<close>

theorem repack_leaves_truncated_counterexample:
  "fst (repackSignedEntries diskFull zipExample zipWorld)
     = Fail (IOError ''no space left on device'')
   \<and> targetPathOf diskFull zipExample = ''signed/go1.zip.withSignedContent''
   \<and> fs (snd (repackSignedEntries diskFull zipExample zipWorld))
        ''signed/go1.zip.withSignedContent''
       = Some (FileNode (ZipFile [zout ''a.exe'' ''SIGNED'', zout ''b.txt'' ''B''] True))"
  by (simp add: zip_defs zipWorld_def diskFull_def)

subsection \<open>Closing discipline\<close>

lemma balance_append: "balance r (t @ u) = balance r t + balance r u"
  by (simp add: balance_def)

lemma balance_Nil: "balance r [] = 0"
  by (simp add: balance_def)

lemma balance_Opened: "balance r (Opened x # t) = (if x = r then 1 else 0) + balance r t"
  by (simp add: balance_def)

lemma balance_Closed: "balance r (Closed x # t) = (if x = r then - 1 else 0) + balance r t"
  by (simp add: balance_def)

lemmas balance_simps = balance_append balance_Nil balance_Opened balance_Closed

lemma close_trace: "trace (snd (close E r W)) = trace W @ [Closed r]"
  by (simp add: close_def)


lemma os_Create_no_Panic: "fst (os_Create E p W) \<noteq> Panic e"
  by (auto simp: os_Create_def Let_def split: option.splits if_splits)


lemma writeFile_no_Panic: "fst (writeFile E p rd W) \<noteq> Panic e"
proof (cases "os_Create E p W")
  case (Pair oc W1)
  show ?thesis using Pair os_Create_no_Panic [of E p W]
    by (cases oc)
      (auto simp: writeFile_def orClose_def of_err_def split: prod.splits option.splits)
qed


lemma writeFile_create_fails:
  "os_Create E p W = (Fail e, W1) \<Longrightarrow> writeFile E p rd W = (Fail e, W1)"
  by (simp add: writeFile_def)



lemma writeFileAndCloseReader_create_fails:
  "os_Create E p W = (Fail e, W1) \<Longrightarrow> fst (writeFileAndCloseReader E p rd W) = Fail e"
  by (simp add: writeFileAndCloseReader_def writeFile_create_fails orClose_def close_def)







lemma repackTarEntry_loop:
  "eachTarGzEntry_loop q es fin (repackTarEntry a) W
     = (if errors_Is fin EOF then Done () else Fail fin, W)"
proof (induction es)
  case Nil
  then show ?case by simp
next
  case (Cons x es)
  obtain info where "entrySignInfo a (tar_Name (Header x)) = Done info"
    using entrySignInfo_Done by blast
  then show ?case using Cons by (simp add: repackTarEntry_def)
qed






















lemmas run_defs2 =
  run_defs openTarGz_def gzip_NewReader_def eachTarGzEntry_def repackTarEntry_loop
  errors_Is_def darwinExample_def darwinWorld_def zipWorld_def closeFault_def diskFull_def
  readerExample_def writeFile_def writeFileAndCloseReader_def


theorem repack_writes_in_place_witness:
  "(archiveType zipExample = zipArchive \<or> macOS zipExample)
   \<and> os_Create diskFull (targetPathOf diskFull zipExample) zipWorld
       = (Done (OsFile ''signed/go1.zip.withSignedContent''),
          snd (os_Create diskFull (targetPathOf diskFull zipExample) zipWorld))
   \<and> fst (writeSignedArchive diskFull zipExample
             (snd (os_Create diskFull (targetPathOf diskFull zipExample) zipWorld)))
       = Fail (IOError ''no space left on device'')
   \<and> fs (snd (repackSignedEntries diskFull zipExample zipWorld))
        (Clean (targetPathOf diskFull zipExample))
       = Some (FileNode (fst (snd (writeSignedArchive diskFull zipExample
             (snd (os_Create diskFull (targetPathOf diskFull zipExample) zipWorld))))))
   \<and> fst (repackSignedEntries diskFull zipExample zipWorld)
       = Fail (IOError ''no space left on device'')"
proof -
  let ?V1 = "snd (os_Create diskFull (targetPathOf diskFull zipExample) zipWorld)"
  let ?ws = "writeSignedArchive diskFull zipExample ?V1"
  have h2: "archiveType zipExample = zipArchive \<or> macOS zipExample"
    by (simp add: zipExample_def)
  have h3: "os_Create diskFull (targetPathOf diskFull zipExample) zipWorld
       = (Done (OsFile ''signed/go1.zip.withSignedContent''), ?V1)"
    by (simp add: run_defs2)
  have a: "fst ?ws = Fail (IOError ''no space left on device'')" by (simp add: run_defs2)
  then have h4: "?ws = (Fail (IOError ''no space left on device''), fst (snd ?ws), snd (snd ?ws))"
    by (metis prod.collapse)
  show ?thesis using repack_writes_in_place [OF h2 h3 h4] h2 h3 a by simp
qed

subsection \<open>The extraction stage\<close>

lemma is_dir_dirs_of: "is_dir W d = (d = ''.'' \<or> d = ''/'' \<or> d \<in> dirs_of W)"
  by (simp add: is_dir_def dirs_of_def)

lemma is_dir_cong: "dirs_of V = dirs_of W \<Longrightarrow> is_dir V d = is_dir W d"
  by (simp add: is_dir_dirs_of)

lemma dirs_of_trace [simp]: "dirs_of (W\<lparr>trace := t\<rparr>) = dirs_of W"
  by (simp add: dirs_of_def)

lemma dirs_of_close: "dirs_of (snd (close E r W)) = dirs_of W"
  by (simp add: close_def)

lemma writeFile_transfer:
  assumes "fst (writeFile E p rd W) = Done ()" and "dirs_of V = dirs_of W"
  shows "fst (writeFile E p rd V) = Done ()
    \<and> fs (snd (writeFile E p rd V)) = (fs V)(Clean p \<mapsto> FileNode (Plain (file_bytes E (rfile rd))))
    \<and> dirs_of (snd (writeFile E p rd V)) = dirs_of V"
proof -
  let ?q = "Clean p"
  have c: "fault E (OsCreate ?q) = None \<and> \<not> is_dir W ?q \<and> is_dir W (Dir ?q)"
    using assms(1)
    by (auto simp: writeFile_def os_Create_def Let_def split: option.splits if_splits)
  then have cV: "\<not> is_dir V ?q \<and> is_dir V (Dir ?q)"
    using is_dir_cong [OF assms(2)] by simp
  have crW: "os_Create E p W = (Done (OsFile ?q),
      W\<lparr>fs := (fs W)(?q \<mapsto> FileNode (Plain [])), trace := trace W @ [Opened (OsFile ?q)]\<rparr>)"
    using c by (simp add: os_Create_def Let_def)
  have crV: "os_Create E p V = (Done (OsFile ?q),
      V\<lparr>fs := (fs V)(?q \<mapsto> FileNode (Plain [])), trace := trace V @ [Opened (OsFile ?q)]\<rparr>)"
    using c cV by (simp add: os_Create_def Let_def)
  have cp: "io_Copy E (OsFile ?q) rd = (file_bytes E (rfile rd), None)
      \<and> fault E (Close (OsFile ?q)) = None"
    using assms(1) crW
    by (auto simp: writeFile_def io_Copy_def close_def orClose_def of_err_def
        split: option.splits)
  have nd: "?q \<notin> dirs_of V" using cV by (simp add: is_dir_dirs_of)
  show ?thesis using crV cp nd
    by (auto simp: writeFile_def close_def set_content_def orClose_def of_err_def dirs_of_def)
qed

lemma writeFileAndCloseReader_transfer:
  assumes "fst (writeFileAndCloseReader E p rd W) = Done ()" and "dirs_of V = dirs_of W"
  shows "fst (writeFileAndCloseReader E p rd V) = Done ()
    \<and> fs (snd (writeFileAndCloseReader E p rd V))
        = (fs V)(Clean p \<mapsto> FileNode (Plain (file_bytes E (rfile rd))))
    \<and> dirs_of (snd (writeFileAndCloseReader E p rd V)) = dirs_of V"
proof -
  have w: "fst (writeFile E p rd W) = Done ()" and cl: "fault E (Close (rsrc rd)) = None"
    using assms(1)
    by (auto simp: writeFileAndCloseReader_def orClose_def close_def
        split: prod.splits outcome.splits option.splits)
  note t = writeFile_transfer [OF w assms(2)]
  obtain o1 V1 where wv: "writeFile E p rd V = (o1, V1)" by (metis prod.exhaust)
  show ?thesis using t cl wv
    by (auto simp: writeFileAndCloseReader_def orClose_def close_def)
qed

lemma mkdirs_files:
  "mkdirs ds m = (r, m') \<Longrightarrow> (m' k = Some (FileNode d)) = (m k = Some (FileNode d))"
proof (induction ds arbitrary: m)
  case Nil
  then show ?case by simp
next
  case (Cons x ds)
  show ?case
  proof (cases "x = ''.'' \<or> x = ''/''")
    case True
    then show ?thesis using Cons by auto
  next
    case False
    show ?thesis
    proof (cases "\<exists>f. m x = Some (FileNode f)")
      case True
      then show ?thesis using Cons.prems False by auto
    next
      case nf: False
      then have "mkdirs ds (m(x \<mapsto> DirNode)) = (r, m')"
        using Cons.prems False by (auto split: option.splits node.splits)
      from Cons.IH [OF this] nf show ?thesis by auto
    qed
  qed
qed

lemma mkdirs_dirs_mono:
  "mkdirs ds m = (r, m') \<Longrightarrow> m k = Some DirNode \<Longrightarrow> m' k = Some DirNode"
proof (induction ds arbitrary: m)
  case Nil
  then show ?case by simp
next
  case (Cons x ds)
  show ?case
  proof (cases "x = ''.'' \<or> x = ''/''")
    case True
    then show ?thesis using Cons by auto
  next
    case False
    show ?thesis
    proof (cases "\<exists>f. m x = Some (FileNode f)")
      case True
      then show ?thesis using Cons.prems False by auto
    next
      case nf: False
      then have "mkdirs ds (m(x \<mapsto> DirNode)) = (r, m')"
        using Cons.prems False by (auto split: option.splits node.splits)
      from Cons.IH [OF this] Cons.prems(2) show ?thesis by auto
    qed
  qed
qed

lemma mkdirs_made:
  "mkdirs ds m = (None, m') \<Longrightarrow> d \<in> set ds \<Longrightarrow> d = ''.'' \<or> d = ''/'' \<or> m' d = Some DirNode"
proof (induction ds arbitrary: m)
  case Nil
  then show ?case by simp
next
  case (Cons x ds)
  show ?case
  proof (cases "x = ''.'' \<or> x = ''/''")
    case True
    then show ?thesis using Cons by auto
  next
    case False
    have nf: "\<not> (\<exists>f. m x = Some (FileNode f))"
      using Cons.prems(1) False by auto
    then have step: "mkdirs ds (m(x \<mapsto> DirNode)) = (None, m')"
      using Cons.prems False by (auto split: option.splits node.splits)
    show ?thesis
    proof (cases "d = x")
      case True
      then show ?thesis using mkdirs_dirs_mono [OF step, of x] by simp
    next
      case False
      then show ?thesis using Cons.IH [OF step] Cons.prems(2) by simp
    qed
  qed
qed

lemma mkdirs_fixed:
  "\<forall>d \<in> set ds. d = ''.'' \<or> d = ''/'' \<or> m d = Some DirNode \<Longrightarrow> mkdirs ds m = (None, m)"
proof (induction ds)
  case Nil
  then show ?case by simp
next
  case (Cons x ds)
  have IH: "mkdirs ds m = (None, m)" using Cons by simp
  show ?case
  proof (cases "x = ''.'' \<or> x = ''/''")
    case True
    then show ?thesis using IH by auto
  next
    case False
    then have d: "m x = Some DirNode" using Cons.prems by simp
    then have "m(x \<mapsto> DirNode) = m" by (rule fun_upd_idem)
    then show ?thesis using False d IH by simp
  qed
qed

lemma selected_Cons:
  "selected a (n # ns) =
     (case entrySignInfo a n of Done (Some i) \<Rightarrow> i # selected a ns | _ \<Rightarrow> selected a ns)"
  by (simp add: selected_def split: outcome.splits option.splits)

lemma selected_Nil: "selected a [] = []"
  by (simp add: selected_def)

lemma extractZipEntries_transfer:
  "fst (extractZipEntries E a es res W) = Done reqs \<Longrightarrow> dirs_of V = dirs_of W \<Longrightarrow>
     fst (extractZipEntries E a es res V) = Done reqs
     \<and> fs (snd (extractZipEntries E a es res V)) = foldl (stageEntry a) (fs V) es
     \<and> dirs_of (snd (extractZipEntries E a es res V)) = dirs_of V
     \<and> reqs = res @ selected a (map (\<lambda>f. Name (FileHeader f)) es)"
proof (induction es arbitrary: res W V)
  case Nil
  then show ?case by (simp add: selected_Nil)
next
  case (Cons f es)
  obtain info where i: "entrySignInfo a (Name (FileHeader f)) = Done info"
    using entrySignInfo_Done by blast
  show ?case
  proof (cases info)
    case None
    have "fst (extractZipEntries E a es res W) = Done reqs"
      using Cons.prems(1) i None by simp
    from Cons.IH [OF this Cons.prems(2)] show ?thesis
      using i None by (simp add: stageEntry_def selected_Cons)
  next
    case (Some x)
    let ?rd = "\<lparr>rsrc = ZipEntry (Clean (path a)) (Name (FileHeader f)),
                rfile = Plain (content f), rerr = None\<rparr>"
    let ?W1 = "W\<lparr>trace := trace W @ [Opened (rsrc ?rd)]\<rparr>"
    let ?V1 = "V\<lparr>trace := trace V @ [Opened (rsrc ?rd)]\<rparr>"
    have nf: "fault E (ZipFileOpen (Clean (path a)) (Name (FileHeader f))) = None"
      using Cons.prems(1) i Some
      by (auto simp: zip_File_Open_def Let_def split: option.splits)
    have oW: "zip_File_Open E a f W = (Done ?rd, ?W1)"
      and oV: "zip_File_Open E a f V = (Done ?rd, ?V1)"
      using nf by (simp_all add: zip_File_Open_def Let_def)
    obtain o2 W2 where wW: "writeFileAndCloseReader E (fullPath x) ?rd ?W1 = (o2, W2)"
      by (metis prod.exhaust)
    have o2: "o2 = Done ()" using Cons.prems(1) i Some oW wW by (cases o2) auto
    have dW: "fst (writeFileAndCloseReader E (fullPath x) ?rd ?W1) = Done ()"
      using wW o2 by simp
    obtain o3 V2 where wV: "writeFileAndCloseReader E (fullPath x) ?rd ?V1 = (o3, V2)"
      by (metis prod.exhaust)
    have dirs1: "dirs_of ?V1 = dirs_of ?W1" using Cons.prems(2) by simp
    note tV = writeFileAndCloseReader_transfer [OF dW dirs1]
    note tW = writeFileAndCloseReader_transfer [OF dW refl]
    have o3: "o3 = Done ()" and fV2: "fs V2 = stageEntry a (fs V) f"
      and dV2: "dirs_of V2 = dirs_of V"
      using tV wV i Some by (simp_all add: stageEntry_def file_bytes_def)
    have dW2: "dirs_of W2 = dirs_of W" using tW wW by simp
    have stepW: "extractZipEntries E a (f # es) res W = extractZipEntries E a es (res @ [x]) W2"
      using i Some oW wW o2 by simp
    have stepV: "extractZipEntries E a (f # es) res V = extractZipEntries E a es (res @ [x]) V2"
      using i Some oV wV o3 by simp
    have "fst (extractZipEntries E a es (res @ [x]) W2) = Done reqs"
      using Cons.prems(1) stepW by simp
    moreover have "dirs_of V2 = dirs_of W2" using dV2 dW2 Cons.prems(2) by simp
    ultimately show ?thesis
      using Cons.IH [of "res @ [x]" W2 V2] stepV fV2 dV2 i Some
      by (simp add: selected_Cons)
  qed
qed

lemma foldl_stageEntry_add:
  "foldl (stageEntry a) m es = m ++ foldl (stageEntry a) Map.empty es"
proof (induction es rule: rev_induct)
  case Nil
  then show ?case by simp
next
  case (snoc f es)
  then show ?case
    by (simp add: stageEntry_def split: outcome.splits option.splits)
qed

lemma foldl_stageEntry_idem:
  "foldl (stageEntry a) (foldl (stageEntry a) m es) es = foldl (stageEntry a) m es"
proof -
  have "foldl (stageEntry a) (foldl (stageEntry a) m es) es
      = (m ++ foldl (stageEntry a) Map.empty es) ++ foldl (stageEntry a) Map.empty es"
    using foldl_stageEntry_add [of a "foldl (stageEntry a) m es" es]
      foldl_stageEntry_add [of a m es] by simp
  also have "\<dots> = m ++ foldl (stageEntry a) Map.empty es"
    by (simp add: map_add_def fun_eq_iff split: option.splits)
  finally show ?thesis using foldl_stageEntry_add [of a m es] by simp
qed

lemma extractTar_transfer:
  "fst (eachTarGzEntry_loop q es fin (extractTarEntry E a) (res, W)) = Done ()
    \<Longrightarrow> dirs_of V = dirs_of W \<Longrightarrow>
     fst (eachTarGzEntry_loop q es fin (extractTarEntry E a) (res, V)) = Done ()
     \<and> fst (snd (eachTarGzEntry_loop q es fin (extractTarEntry E a) (res, V)))
         = res @ selected a (map (\<lambda>x. tar_Name (Header x)) es)
     \<and> fs (snd (snd (eachTarGzEntry_loop q es fin (extractTarEntry E a) (res, V))))
         = foldl (stageTarEntry a) (fs V) es
     \<and> dirs_of (snd (snd (eachTarGzEntry_loop q es fin (extractTarEntry E a) (res, V))))
         = dirs_of V"
proof (induction es arbitrary: res W V)
  case Nil
  then show ?case by (auto simp: selected_Nil split: if_splits)
next
  case (Cons x es)
  let ?rd = "\<lparr>rsrc = TarEntry q (tar_Name (Header x)), rfile = Plain (body x), rerr = None\<rparr>"
  let ?loop = "eachTarGzEntry_loop q es fin (extractTarEntry E a)"
  obtain info where i: "entrySignInfo a (tar_Name (Header x)) = Done info"
    using entrySignInfo_Done by blast
  show ?case
  proof (cases info)
    case None
    have sW: "extractTarEntry E a (Header x) ?rd (res, W) = (Done (), (res, W))"
      and sV: "extractTarEntry E a (Header x) ?rd (res, V) = (Done (), (res, V))"
      using i None by (simp_all add: extractTarEntry_def)
    have stepW: "eachTarGzEntry_loop q (x # es) fin (extractTarEntry E a) (res, W) = ?loop (res, W)"
      using sW by simp
    have stepV: "eachTarGzEntry_loop q (x # es) fin (extractTarEntry E a) (res, V) = ?loop (res, V)"
      using sV by simp
    have st: "foldl (stageTarEntry a) (fs V) (x # es) = foldl (stageTarEntry a) (fs V) es"
      using i None by (simp add: stageTarEntry_def)
    have sel: "selected a (map (\<lambda>x. tar_Name (Header x)) (x # es))
        = selected a (map (\<lambda>x. tar_Name (Header x)) es)"
      using i None by (simp add: selected_Cons)
    have "fst (?loop (res, W)) = Done ()" using Cons.prems(1) stepW by simp
    from Cons.IH [OF this Cons.prems(2)] show ?thesis
      unfolding stepV st sel by simp
  next
    case (Some y)
    let ?p = "Join [fullPath y, tar_Name (Header x)]"
    obtain o2 W2 where wW: "writeFile E ?p ?rd W = (o2, W2)" by (metis prod.exhaust)
    have o2: "o2 = Done ()"
      using Cons.prems(1) i Some wW by (cases o2) (auto simp: extractTarEntry_def)
    have dW: "fst (writeFile E ?p ?rd W) = Done ()" using wW o2 by simp
    obtain o3 V2 where wV: "writeFile E ?p ?rd V = (o3, V2)" by (metis prod.exhaust)
    note tV = writeFile_transfer [OF dW Cons.prems(2)]
    note tW = writeFile_transfer [OF dW refl]
    have o3: "o3 = Done ()" and fV2: "fs V2 = stageTarEntry a (fs V) x"
      and dV2: "dirs_of V2 = dirs_of V"
      using tV wV i Some by (simp_all add: stageTarEntry_def file_bytes_def)
    have dW2: "dirs_of W2 = dirs_of W" using tW wW by simp
    have sW: "extractTarEntry E a (Header x) ?rd (res, W) = (Done (), (res @ [y], W2))"
      using i Some wW o2 by (simp add: extractTarEntry_def)
    have sV: "extractTarEntry E a (Header x) ?rd (res, V) = (Done (), (res @ [y], V2))"
      using i Some wV o3 by (simp add: extractTarEntry_def)
    have stepW: "eachTarGzEntry_loop q (x # es) fin (extractTarEntry E a) (res, W)
        = ?loop (res @ [y], W2)"
      using sW by simp
    have stepV: "eachTarGzEntry_loop q (x # es) fin (extractTarEntry E a) (res, V)
        = ?loop (res @ [y], V2)"
      using sV by simp
    have st: "foldl (stageTarEntry a) (fs V) (x # es) = foldl (stageTarEntry a) (fs V2) es"
      using fV2 by simp
    have sel: "res @ selected a (map (\<lambda>x. tar_Name (Header x)) (x # es))
        = (res @ [y]) @ selected a (map (\<lambda>x. tar_Name (Header x)) es)"
      using i Some by (simp add: selected_Cons)
    have "fst (?loop (res @ [y], W2)) = Done ()" using Cons.prems(1) stepW by simp
    moreover have "dirs_of V2 = dirs_of W2" using dV2 dW2 Cons.prems(2) by simp
    ultimately show ?thesis
      using Cons.IH [of "res @ [y]" W2 V2] dV2 unfolding stepV st sel by simp
  qed
qed

lemma foldl_stageTarEntry_add:
  "foldl (stageTarEntry a) m es = m ++ foldl (stageTarEntry a) Map.empty es"
proof (induction es rule: rev_induct)
  case Nil
  then show ?case by simp
next
  case (snoc f es)
  then show ?case
    by (simp add: stageTarEntry_def split: outcome.splits option.splits)
qed

lemma foldl_stageTarEntry_idem:
  "foldl (stageTarEntry a) (foldl (stageTarEntry a) m es) es = foldl (stageTarEntry a) m es"
proof -
  have "foldl (stageTarEntry a) (foldl (stageTarEntry a) m es) es
      = (m ++ foldl (stageTarEntry a) Map.empty es) ++ foldl (stageTarEntry a) Map.empty es"
    using foldl_stageTarEntry_add [of a "foldl (stageTarEntry a) m es" es]
      foldl_stageTarEntry_add [of a m es] by simp
  also have "\<dots> = m ++ foldl (stageTarEntry a) Map.empty es"
    by (simp add: map_add_def fun_eq_iff split: option.splits)
  finally show ?thesis using foldl_stageTarEntry_add [of a m es] by simp
qed

text \<open>What a successful \<^verbatim>\<open>os.MkdirAll\<close> of the staging directory tells.\<close>

lemma os_MkdirAll_Done:
  assumes "os_MkdirAll E (entryExtractDir a) W = (Done (), Wm)"
  shows "Wm = W\<lparr>fs := stagingDirs a (fs W)\<rparr>
    \<and> fault E (OsMkdirAll (Clean (entryExtractDir a))) = None
    \<and> mkdirs (ancestors_from [] (Clean (entryExtractDir a))) (fs W)
        = (None, stagingDirs a (fs W))"
  using assms
  by (auto simp: os_MkdirAll_def stagingDirs_def split: option.splits prod.splits)

lemma os_MkdirAll_again:
  assumes "os_MkdirAll E (entryExtractDir a) W = (Done (), Wm)"
    and "dirs_of W1 = dirs_of Wm"
  shows "os_MkdirAll E (entryExtractDir a) W1 = (Done (), W1)"
proof -
  let ?ds = "ancestors_from [] (Clean (entryExtractDir a))"
  note m = os_MkdirAll_Done [OF assms(1)]
  have "\<forall>d \<in> set ?ds. d = ''.'' \<or> d = ''/'' \<or> fs Wm d = Some DirNode"
    using mkdirs_made [of ?ds "fs W" "stagingDirs a (fs W)"] m by auto
  then have "\<forall>d \<in> set ?ds. d = ''.'' \<or> d = ''/'' \<or> fs W1 d = Some DirNode"
    using assms(2) by (auto simp: dirs_of_def)
  then have "mkdirs ?ds (fs W1) = (None, fs W1)" by (rule mkdirs_fixed)
  then show ?thesis using m by (simp add: os_MkdirAll_def)
qed

lemma os_MkdirAll_outcome:
  "os_MkdirAll E p W = (oc, Wm) \<Longrightarrow> (\<exists>e. oc = Fail e) \<or> oc = Done ()"
  by (auto simp: os_MkdirAll_def split: option.splits prod.splits)

lemma zip_OpenReader_iff:
  "zip_OpenReader E p W = (Done es, Wz) \<longleftrightarrow>
     fault E (ZipOpenReader (Clean p)) = None \<and> \<not> is_dir W (Clean p)
     \<and> fs W (Clean p) = Some (FileNode (ZipFile es True))
     \<and> Wz = W\<lparr>trace := trace W @ [Opened (ZipReader (Clean p))]\<rparr>"
  by (auto simp: zip_OpenReader_def Let_def
      split: option.splits node.splits filedata.splits if_splits bool.splits)

lemma open_tar_iff:
  "(\<exists>f W2. os_Open E p W = (Done f, W2) \<and> rsrc f = OsFile (Clean p)
        \<and> gzip_NewReader E f W2 = (Done tr, W3)) \<longleftrightarrow>
     fault E (OsOpen (Clean p)) = None \<and> \<not> is_dir W (Clean p)
     \<and> fs W (Clean p) = Some (FileNode (TarGzFile (pending tr) (endErr tr)))
     \<and> fault E (GzipNewReader (Clean p)) = None \<and> tsrc tr = Clean p
     \<and> W3 = W\<lparr>trace := trace W @ [Opened (OsFile (Clean p)), Opened (GzipReader (Clean p))]\<rparr>"
  by (cases tr)
    (auto simp: os_Open_def gzip_NewReader_def Let_def
      split: option.splits node.splits filedata.splits if_splits)

lemma os_Open_rsrc: "os_Open E p W = (Done f, W2) \<Longrightarrow> rsrc f = OsFile (Clean p)"
  by (auto simp: os_Open_def Let_def split: option.splits node.splits if_splits)

text \<open>
  Claim C9. Idempotence of extraction: when a run of the extraction stage on an archive
  has succeeded and the archive is still the same file (the run has not staged a file
  over the archive itself), a second run into the same staging directory succeeds, the
  staging directory that is already there being reused, returns the same list of
  requests, and leaves the same files with the same contents.
\<close>

theorem extraction_idempotent:
  assumes run: "prepareEntriesToSign E a W = (Done reqs, W1)"
    and intact: "fs W1 (Clean (path a)) = fs W (Clean (path a))"
  shows "fst (prepareEntriesToSign E a W1) = Done reqs
       \<and> fs (snd (prepareEntriesToSign E a W1)) = fs W1"
proof -
  let ?q = "Clean (path a)"
  obtain oc Wm where mk0: "os_MkdirAll E (entryExtractDir a) W = (oc, Wm)"
    by (metis prod.exhaust)
  have "oc = Done ()"
    using run mk0 os_MkdirAll_outcome [OF mk0] by (auto simp: prepareEntriesToSign_def)
  then have mk: "os_MkdirAll E (entryExtractDir a) W = (Done (), Wm)" using mk0 by simp
  note m = os_MkdirAll_Done [OF mk]
  have mkd: "mkdirs (ancestors_from [] (Clean (entryExtractDir a))) (fs W)
      = (None, stagingDirs a (fs W))"
    and Wm: "fs Wm = stagingDirs a (fs W)"
    using m by simp_all
  have files_m: "\<And>k d. (fs Wm k = Some (FileNode d)) = (fs W k = Some (FileNode d))"
    unfolding Wm by (rule mkdirs_files [OF mkd])
  show ?thesis
  proof (cases "archiveType a = zipArchive")
    case True
    obtain o1 Wz where oz0: "zip_OpenReader E (path a) Wm = (o1, Wz)" by (metis prod.exhaust)
    obtain es where o1: "o1 = Done es"
      using run mk oz0 True by (cases o1) (auto simp: prepareEntriesToSign_def)
    note oz = oz0 [unfolded o1]
    note z = oz [unfolded zip_OpenReader_iff]
    obtain o2 W3 where lp: "extractZipEntries E a es [] Wz = (o2, W3)" by (metis prod.exhaust)
    have o2: "o2 = Done reqs" and W1: "W1 = snd (close E (ZipReader ?q) W3)"
      using run mk oz lp True by (auto simp: prepareEntriesToSign_def)
    have d: "fst (extractZipEntries E a es [] Wz) = Done reqs" using lp o2 by simp
    note t0 = extractZipEntries_transfer [OF d refl]
    have fW1: "fs W1 = foldl (stageEntry a) (fs Wz) es" and dW1: "dirs_of W1 = dirs_of Wm"
      using t0 lp W1 z by (simp_all add: close_fs dirs_of_close)
    have mk2: "os_MkdirAll E (entryExtractDir a) W1 = (Done (), W1)"
      using os_MkdirAll_again [OF mk dW1] .
    let ?Wz2 = "W1\<lparr>trace := trace W1 @ [Opened (ZipReader ?q)]\<rparr>"
    have "fs W ?q = Some (FileNode (ZipFile es True))" using z files_m by simp
    then have "fs W1 ?q = Some (FileNode (ZipFile es True))" using intact by simp
    moreover have "\<not> is_dir W1 ?q" using z is_dir_cong [OF dW1] by simp
    ultimately have oz2: "zip_OpenReader E (path a) W1 = (Done es, ?Wz2)"
      using z by (simp add: zip_OpenReader_iff)
    have "dirs_of ?Wz2 = dirs_of Wz" using dW1 z by simp
    note t2 = extractZipEntries_transfer [OF d this]
    obtain o4 W4 where lp2: "extractZipEntries E a es [] ?Wz2 = (o4, W4)"
      by (metis prod.exhaust)
    have r4: "o4 = Done reqs" "fs W4 = fs W1"
      using t2 lp2 fW1 by (simp_all add: foldl_stageEntry_idem)
    show ?thesis using mk2 oz2 lp2 r4 True
      by (simp add: prepareEntriesToSign_def close_def)
  next
    case False
    note notzip = this
    show ?thesis
    proof (cases "macOS a")
      case False
      have "W1 = Wm" and "reqs = []"
        using run mk notzip False by (auto simp: prepareEntriesToSign_def)
      then show ?thesis using os_MkdirAll_again [OF mk, of W1] notzip False
        by (simp add: prepareEntriesToSign_def)
    next
      case True
      obtain o1 W2 where op0: "os_Open E (path a) Wm = (o1, W2)" by (metis prod.exhaust)
      obtain f where o1: "o1 = Done f"
        using run mk op0 notzip True by (cases o1) (auto simp: prepareEntriesToSign_def)
      note op = op0 [unfolded o1]
      have rf: "rsrc f = OsFile ?q" using os_Open_rsrc [OF op] .
      obtain o2 W3 where gz0: "gzip_NewReader E f W2 = (o2, W3)" by (metis prod.exhaust)
      obtain tr where o2: "o2 = Done tr"
        using run mk op gz0 notzip True by (cases o2) (auto simp: prepareEntriesToSign_def)
      note gz = gz0 [unfolded o2]
      have "\<exists>f W2. os_Open E (path a) Wm = (Done f, W2) \<and> rsrc f = OsFile ?q
          \<and> gzip_NewReader E f W2 = (Done tr, W3)"
        using op rf gz by blast
      note z = this [unfolded open_tar_iff]
      let ?loop = "eachTarGzEntry_loop (tsrc tr) (pending tr) (endErr tr) (extractTarEntry E a)"
      obtain o3 rs W4 where lp: "?loop ([], W3) = (o3, (rs, W4))" by (metis prod.exhaust)
      have o3: "o3 = Done ()" and rs: "rs = reqs" and W1: "W1 = snd (close E (OsFile ?q) W4)"
        using run mk op gz lp notzip True rf
        by (cases o3; auto simp: prepareEntriesToSign_def eachTarGzEntry_def)+
      have d: "fst (?loop ([], W3)) = Done ()" using lp o3 by simp
      note t0 = extractTar_transfer [OF d refl]
      have fW1: "fs W1 = foldl (stageTarEntry a) (fs W3) (pending tr)"
        and dW1: "dirs_of W1 = dirs_of Wm"
        and rq: "reqs = selected a (map (\<lambda>x. tar_Name (Header x)) (pending tr))"
        using t0 lp W1 z rs by (simp_all add: close_fs dirs_of_close)
      have mk2: "os_MkdirAll E (entryExtractDir a) W1 = (Done (), W1)"
        using os_MkdirAll_again [OF mk dW1] .
      let ?W32 = "W1\<lparr>trace := trace W1 @ [Opened (OsFile ?q), Opened (GzipReader ?q)]\<rparr>"
      have "fs W ?q = Some (FileNode (TarGzFile (pending tr) (endErr tr)))"
        using z files_m by simp
      then have "fs W1 ?q = Some (FileNode (TarGzFile (pending tr) (endErr tr)))"
        using intact by simp
      moreover have "\<not> is_dir W1 ?q" using z is_dir_cong [OF dW1] by simp
      ultimately have "\<exists>f W2. os_Open E (path a) W1 = (Done f, W2) \<and> rsrc f = OsFile ?q
          \<and> gzip_NewReader E f W2 = (Done tr, ?W32)"
        using z unfolding open_tar_iff by simp
      then obtain f2 W22 where op2: "os_Open E (path a) W1 = (Done f2, W22)"
        and rf2: "rsrc f2 = OsFile ?q" and gz2: "gzip_NewReader E f2 W22 = (Done tr, ?W32)"
        by blast
      have "dirs_of ?W32 = dirs_of W3" using dW1 z by simp
      note t2 = extractTar_transfer [OF d this]
      obtain o5 rs5 W5 where lp2: "?loop ([], ?W32) = (o5, (rs5, W5))" by (metis prod.exhaust)
      have r5: "o5 = Done ()" "rs5 = reqs" "fs W5 = fs W1"
        using t2 lp2 fW1 rq by (simp_all add: foldl_stageTarEntry_idem)
      show ?thesis using mk2 op2 rf2 gz2 lp2 r5 notzip True
        by (simp add: prepareEntriesToSign_def eachTarGzEntry_def close_def)
    qed
  qed
qed

lemma entrySignInfo_fullPath:
  "entrySignInfo a n = Done (Some i)
    \<Longrightarrow> fullPath i = Join [path a @ ''.extracted'', n] \<and> archivePath i = path a"
  unfolding entrySignInfo_def matchOrPanic_def Match_go_bin Match_pkg_tool entryExtractDir_def
  by (auto split: if_splits)

lemma selected_mem:
  "n \<in> set ns \<Longrightarrow> entrySignInfo a n = Done (Some i) \<Longrightarrow> i \<in> set (selected a ns)"
  by (induction ns) (auto simp: selected_Cons selected_Nil split: outcome.splits option.splits)

lemma foldl_stageEntry_untouched:
  "\<forall>g \<in> set post. \<forall>j. entrySignInfo a (Name (FileHeader g)) = Done (Some j)
      \<longrightarrow> Clean (fullPath j) \<noteq> k
    \<Longrightarrow> foldl (stageEntry a) m post k = m k"
proof (induction post arbitrary: m)
  case Nil
  then show ?case by simp
next
  case (Cons g post)
  have "stageEntry a m g k = m k"
    using Cons.prems by (auto simp: stageEntry_def split: outcome.splits option.splits)
  moreover have "foldl (stageEntry a) (stageEntry a m g) post k = stageEntry a m g k"
    using Cons.IH [of "stageEntry a m g"] Cons.prems by simp
  ultimately show ?case by simp
qed

text \<open>
  What the extraction of a zip archive does when it succeeds: the requests are those of
  the entries the selector matches, in the order of the archive, and the file system is
  the one with the staging directory, in which every matched entry has been written at
  the staged path of its request. So for every matched entry (that no later entry
  overwrites) the request is recorded, its staged path is the join of
  \<^verbatim>\<open><archive path>.extracted\<close> and the entry name, and the file at exactly that path holds
  the entry's bytes. Only the staging directory itself is made.
\<close>

lemma extraction_stages_zip:
  assumes zip: "archiveType a = zipArchive"
    and arch: "fs W (Clean (path a)) = Some (FileNode (ZipFile es True))"
    and run: "prepareEntriesToSign E a W = (Done reqs, W')"
  shows "reqs = selected a (map (\<lambda>f. Name (FileHeader f)) es)
    \<and> fs W' = foldl (stageEntry a) (stagingDirs a (fs W)) es
    \<and> (\<forall>pre f post i.
          es = pre @ f # post \<and> entrySignInfo a (Name (FileHeader f)) = Done (Some i)
          \<and> (\<forall>g \<in> set post. \<forall>j. entrySignInfo a (Name (FileHeader g)) = Done (Some j)
                \<longrightarrow> Clean (fullPath j) \<noteq> Clean (fullPath i))
          \<longrightarrow> i \<in> set reqs
             \<and> fullPath i = Join [path a @ ''.extracted'', Name (FileHeader f)]
             \<and> fs W' (Clean (fullPath i)) = Some (FileNode (Plain (content f))))"
proof -
  let ?q = "Clean (path a)"
  obtain oc Wm where mk0: "os_MkdirAll E (entryExtractDir a) W = (oc, Wm)"
    by (metis prod.exhaust)
  have "oc = Done ()"
    using run mk0 os_MkdirAll_outcome [OF mk0] by (auto simp: prepareEntriesToSign_def)
  then have mk: "os_MkdirAll E (entryExtractDir a) W = (Done (), Wm)" using mk0 by simp
  note m = os_MkdirAll_Done [OF mk]
  have mkd: "mkdirs (ancestors_from [] (Clean (entryExtractDir a))) (fs W)
      = (None, stagingDirs a (fs W))"
    and Wm: "fs Wm = stagingDirs a (fs W)"
    using m by simp_all
  have files_m: "\<And>k d. (fs Wm k = Some (FileNode d)) = (fs W k = Some (FileNode d))"
    unfolding Wm by (rule mkdirs_files [OF mkd])
  obtain o1 Wz where oz0: "zip_OpenReader E (path a) Wm = (o1, Wz)" by (metis prod.exhaust)
  obtain es' where o1: "o1 = Done es'"
    using run mk oz0 zip by (cases o1) (auto simp: prepareEntriesToSign_def)
  note oz = oz0 [unfolded o1]
  note z = oz [unfolded zip_OpenReader_iff]
  have "fs W ?q = Some (FileNode (ZipFile es' True))" using z files_m by simp
  then have es': "es' = es" using arch by simp
  obtain o2 W3 where lp: "extractZipEntries E a es [] Wz = (o2, W3)" by (metis prod.exhaust)
  have o2: "o2 = Done reqs" and W': "W' = snd (close E (ZipReader ?q) W3)"
    using run mk oz lp zip es' by (auto simp: prepareEntriesToSign_def)
  have d: "fst (extractZipEntries E a es [] Wz) = Done reqs" using lp o2 by simp
  note t0 = extractZipEntries_transfer [OF d refl]
  have rq: "reqs = selected a (map (\<lambda>f. Name (FileHeader f)) es)" using t0 by simp
  have fW: "fs W' = foldl (stageEntry a) (stagingDirs a (fs W)) es"
    using t0 lp W' z Wm by (simp add: close_fs)
  have each: "i \<in> set reqs
        \<and> fullPath i = Join [path a @ ''.extracted'', Name (FileHeader f)]
        \<and> fs W' (Clean (fullPath i)) = Some (FileNode (Plain (content f)))"
    if h: "es = pre @ f # post \<and> entrySignInfo a (Name (FileHeader f)) = Done (Some i)
          \<and> (\<forall>g \<in> set post. \<forall>j. entrySignInfo a (Name (FileHeader g)) = Done (Some j)
                \<longrightarrow> Clean (fullPath j) \<noteq> Clean (fullPath i))"
    for pre f post i
  proof -
    have i: "entrySignInfo a (Name (FileHeader f)) = Done (Some i)" using h by simp
    have "Name (FileHeader f) \<in> set (map (\<lambda>f. Name (FileHeader f)) es)" using h by simp
    then have mem: "i \<in> set reqs" using selected_mem i rq by blast
    let ?m1 = "foldl (stageEntry a) (stagingDirs a (fs W)) pre"
    have "fs W' = foldl (stageEntry a) (stageEntry a ?m1 f) post" using fW h by simp
    moreover have "foldl (stageEntry a) (stageEntry a ?m1 f) post (Clean (fullPath i))
        = stageEntry a ?m1 f (Clean (fullPath i))"
      using foldl_stageEntry_untouched [of post a "Clean (fullPath i)"] h by blast
    moreover have "stageEntry a ?m1 f (Clean (fullPath i)) = Some (FileNode (Plain (content f)))"
      using i by (simp add: stageEntry_def)
    ultimately show ?thesis using mem entrySignInfo_fullPath [OF i] by simp
  qed
  show ?thesis using rq fW each by blast
qed

lemmas extract_defs =
  run_defs prepareEntriesToSign_def os_MkdirAll_def writeFile_def writeFileAndCloseReader_def
  freshWorld_def nestedWorld_def

lemma freshWorld_run:
  "fst (prepareEntriesToSign noFaults zipExample freshWorld)
     = Done [\<lparr>archivePath = ''go1.zip'', fullPath = ''go1.zip.extracted/a.exe'',
              authenticode = ''Microsoft400''\<rparr>]"
  by (simp add: extract_defs)

lemma freshWorld_archive:
  "fs (snd (prepareEntriesToSign noFaults zipExample freshWorld)) ''go1.zip''
     = Some (FileNode (ZipFile [zfile ''a.exe'' ''AAA'', zfile ''b.txt'' ''BBB''] True))"
  by (simp add: extract_defs)

lemma extraction_stages_zip_example:
  "archiveType zipExample = zipArchive
   \<and> fs freshWorld (Clean (path zipExample))
       = Some (FileNode (ZipFile [zfile ''a.exe'' ''AAA'', zfile ''b.txt'' ''BBB''] True))
   \<and> fst (prepareEntriesToSign noFaults zipExample freshWorld)
       = Done [\<lparr>archivePath = ''go1.zip'', fullPath = ''go1.zip.extracted/a.exe'',
                authenticode = ''Microsoft400''\<rparr>]
   \<and> entrySignInfo zipExample ''a.exe''
       = Done (Some \<lparr>archivePath = ''go1.zip'', fullPath = ''go1.zip.extracted/a.exe'',
                     authenticode = ''Microsoft400''\<rparr>)
   \<and> entrySignInfo zipExample ''b.txt'' = Done None
   \<and> Join [path zipExample @ ''.extracted'', ''a.exe''] = ''go1.zip.extracted/a.exe''
   \<and> fs (snd (prepareEntriesToSign noFaults zipExample freshWorld)) ''go1.zip.extracted/a.exe''
       = Some (FileNode (Plain ''AAA''))"
proof -
  let ?i = "\<lparr>archivePath = ''go1.zip'', fullPath = ''go1.zip.extracted/a.exe'',
             authenticode = ''Microsoft400''\<rparr>"
  let ?run = "prepareEntriesToSign noFaults zipExample freshWorld"
  have a: "archiveType zipExample = zipArchive" by (simp add: zipExample_def)
  have b: "fs freshWorld (Clean (path zipExample))
       = Some (FileNode (ZipFile [zfile ''a.exe'' ''AAA'', zfile ''b.txt'' ''BBB''] True))"
    by (simp add: extract_defs)
  have c: "?run = (Done [?i], snd ?run)" using freshWorld_run by (metis prod.collapse)
  have e1: "entrySignInfo zipExample ''a.exe'' = Done (Some ?i)"
    and e2: "entrySignInfo zipExample ''b.txt'' = Done None"
    and j: "Join [path zipExample @ ''.extracted'', ''a.exe''] = ''go1.zip.extracted/a.exe''"
    and cl: "Clean ''go1.zip.extracted/a.exe'' = ''go1.zip.extracted/a.exe''"
    by (simp_all add: extract_defs)
  have h: "[zfile ''a.exe'' ''AAA'', zfile ''b.txt'' ''BBB'']
        = [] @ zfile ''a.exe'' ''AAA'' # [zfile ''b.txt'' ''BBB'']
      \<and> entrySignInfo zipExample (Name (FileHeader (zfile ''a.exe'' ''AAA''))) = Done (Some ?i)
      \<and> (\<forall>g \<in> set [zfile ''b.txt'' ''BBB''].
            \<forall>j. entrySignInfo zipExample (Name (FileHeader g)) = Done (Some j)
              \<longrightarrow> Clean (fullPath j) \<noteq> Clean (fullPath ?i))"
    using e1 e2 by (simp add: zfile_def zhdr_def)
  note r = extraction_stages_zip [OF a b c, THEN conjunct2, THEN conjunct2, rule_format, OF h]
  have "fs (snd ?run) ''go1.zip.extracted/a.exe'' = Some (FileNode (Plain ''AAA''))"
    using r [THEN conjunct2, THEN conjunct2] cl by (simp add: zfile_def)
  then show ?thesis using a b freshWorld_run e1 e2 j by simp
qed

theorem extraction_idempotent_witness:
  "fst (prepareEntriesToSign noFaults zipExample freshWorld)
     = Done [\<lparr>archivePath = ''go1.zip'', fullPath = ''go1.zip.extracted/a.exe'',
              authenticode = ''Microsoft400''\<rparr>]
   \<and> fs (snd (prepareEntriesToSign noFaults zipExample freshWorld)) (Clean (path zipExample))
       = fs freshWorld (Clean (path zipExample))
   \<and> fst (prepareEntriesToSign noFaults zipExample
             (snd (prepareEntriesToSign noFaults zipExample freshWorld)))
       = Done [\<lparr>archivePath = ''go1.zip'', fullPath = ''go1.zip.extracted/a.exe'',
                authenticode = ''Microsoft400''\<rparr>]
   \<and> fs (snd (prepareEntriesToSign noFaults zipExample
                 (snd (prepareEntriesToSign noFaults zipExample freshWorld))))
       = fs (snd (prepareEntriesToSign noFaults zipExample freshWorld))"
proof -
  let ?i = "\<lparr>archivePath = ''go1.zip'', fullPath = ''go1.zip.extracted/a.exe'',
             authenticode = ''Microsoft400''\<rparr>"
  let ?run = "prepareEntriesToSign noFaults zipExample freshWorld"
  have c: "?run = (Done [?i], snd ?run)" using freshWorld_run by (metis prod.collapse)
  have q: "Clean (path zipExample) = ''go1.zip''" by (simp add: extract_defs)
  have intact: "fs (snd ?run) (Clean (path zipExample)) = fs freshWorld (Clean (path zipExample))"
    unfolding q using freshWorld_archive by (simp add: freshWorld_def)
  show ?thesis using extraction_idempotent [OF c intact] freshWorld_run intact by simp
qed

subsection \<open>Extraction of an entry in a directory\<close>

text \<open>
  Claim C6. The claim says that extraction writes every matched entry at
  \<^verbatim>\<open><archive path>.extracted/<entry name>\<close>, creating intermediate directories as needed.
  \<^verbatim>\<open>prepareEntriesToSign\<close> calls \<^verbatim>\<open>os.MkdirAll\<close> for the staging directory only, and
  \<^verbatim>\<open>writeFile\<close> calls \<^verbatim>\<open>os.Create\<close>, which makes no directory. On a zip archive whose
  signable entry is \<^verbatim>\<open>go/bin/go.exe\<close>, with nothing but the archive in the file system, the
  extraction fails with "no such file or directory" and nothing is staged. On a macOS
  tar.gz archive with the entry \<^verbatim>\<open>go/bin/go\<close> it fails in the same way, at the path
  \<^verbatim>\<open><archive path>.extracted/go/bin/go/go/bin/go\<close>, because the tar.gz branch joins the
  entry name to the staged path, which already ends with it.
\<close>

theorem extraction_makes_no_directories:
  "fs nestedWorld = [''go1.zip'' \<mapsto> FileNode (ZipFile [zfile ''go/bin/go.exe'' ''EXE''] True)]
   \<and> entrySignInfo zipExample ''go/bin/go.exe''
     = Done (Some \<lparr>archivePath = ''go1.zip'', fullPath = ''go1.zip.extracted/go/bin/go.exe'',
                   authenticode = ''Microsoft400''\<rparr>)
   \<and> fst (prepareEntriesToSign noFaults zipExample nestedWorld)
       = Fail (ExtractFailed ''go1.zip'' (ENOENT ''go1.zip.extracted/go/bin/go.exe''))
   \<and> fs (snd (prepareEntriesToSign noFaults zipExample nestedWorld)) ''go1.zip.extracted''
       = Some DirNode
   \<and> fs (snd (prepareEntriesToSign noFaults zipExample nestedWorld))
        ''go1.zip.extracted/go/bin'' = None
   \<and> fs (snd (prepareEntriesToSign noFaults zipExample nestedWorld))
        ''go1.zip.extracted/go/bin/go.exe'' = None
   \<and> entrySignInfo darwinExample ''go/bin/go''
     = Done (Some \<lparr>archivePath = ''go1.darwin-arm64.tar.gz'',
                   fullPath = ''go1.darwin-arm64.tar.gz.extracted/go/bin/go'',
                   authenticode = ''MacDeveloperHarden''\<rparr>)
   \<and> fst (prepareEntriesToSign noFaults darwinExample darwinWorld)
       = Fail (ExtractFailed ''go1.darwin-arm64.tar.gz''
                 (ENOENT ''go1.darwin-arm64.tar.gz.extracted/go/bin/go/go/bin/go''))
   \<and> fs (snd (prepareEntriesToSign noFaults darwinExample darwinWorld))
        ''go1.darwin-arm64.tar.gz.extracted/go/bin/go'' = None"
proof -
  have 1: "fs nestedWorld
       = [''go1.zip'' \<mapsto> FileNode (ZipFile [zfile ''go/bin/go.exe'' ''EXE''] True)]
   \<and> entrySignInfo zipExample ''go/bin/go.exe''
     = Done (Some \<lparr>archivePath = ''go1.zip'', fullPath = ''go1.zip.extracted/go/bin/go.exe'',
                   authenticode = ''Microsoft400''\<rparr>)
   \<and> fst (prepareEntriesToSign noFaults zipExample nestedWorld)
       = Fail (ExtractFailed ''go1.zip'' (ENOENT ''go1.zip.extracted/go/bin/go.exe''))
   \<and> fs (snd (prepareEntriesToSign noFaults zipExample nestedWorld)) ''go1.zip.extracted''
       = Some DirNode
   \<and> fs (snd (prepareEntriesToSign noFaults zipExample nestedWorld))
        ''go1.zip.extracted/go/bin'' = None
   \<and> fs (snd (prepareEntriesToSign noFaults zipExample nestedWorld))
        ''go1.zip.extracted/go/bin/go.exe'' = None"
    by (simp add: extract_defs)
  have 2: "entrySignInfo darwinExample ''go/bin/go''
     = Done (Some \<lparr>archivePath = ''go1.darwin-arm64.tar.gz'',
                   fullPath = ''go1.darwin-arm64.tar.gz.extracted/go/bin/go'',
                   authenticode = ''MacDeveloperHarden''\<rparr>)
   \<and> fst (prepareEntriesToSign noFaults darwinExample darwinWorld)
       = Fail (ExtractFailed ''go1.darwin-arm64.tar.gz''
                 (ENOENT ''go1.darwin-arm64.tar.gz.extracted/go/bin/go/go/bin/go''))
   \<and> fs (snd (prepareEntriesToSign noFaults darwinExample darwinWorld))
        ''go1.darwin-arm64.tar.gz.extracted/go/bin/go'' = None"
    by (simp add: extract_defs darwinExample_def darwinWorld_def gzip_NewReader_def
        eachTarGzEntry_def extractTarEntry_def Match_go_bin Match_pkg_tool errors_Is_def)
  show ?thesis using 1 2 by simp
qed

subsection \<open>The tar.gz branches on an example\<close>

text \<open>
  When the directory is there, the tar.gz branch of \<^verbatim>\<open>prepareEntriesToSign\<close> writes the
  entry to the join of the staged path and the entry name, not to the staged path of the
  request it records.
\<close>

lemma extraction_tar_doubles_path:
  "fst (prepareEntriesToSign noFaults darwinExample darwinStaged)
     = Done [\<lparr>archivePath = ''go1.darwin-arm64.tar.gz'',
              fullPath = ''go1.darwin-arm64.tar.gz.extracted/go/bin/go'',
              authenticode = ''MacDeveloperHarden''\<rparr>]
   \<and> fs (snd (prepareEntriesToSign noFaults darwinExample darwinStaged))
        ''go1.darwin-arm64.tar.gz.extracted/go/bin/go/go/bin/go'' = Some (FileNode (Plain ''GO''))
   \<and> fs (snd (prepareEntriesToSign noFaults darwinExample darwinStaged))
        ''go1.darwin-arm64.tar.gz.extracted/go/bin/go'' = None"
  by (simp add: extract_defs darwinExample_def darwinStaged_def gzip_NewReader_def
      eachTarGzEntry_def extractTarEntry_def Match_go_bin Match_pkg_tool errors_Is_def)

text \<open>
  The tar.gz branch of \<^verbatim>\<open>writeSignedArchive\<close> writes an archive without entries, whatever
  the source holds.
\<close>

lemma repack_darwin_writes_no_entry:
  "fst (writeSignedArchive noFaults darwinExample darwinWorld) = Done ()
   \<and> fst (snd (writeSignedArchive noFaults darwinExample darwinWorld)) = TarGzFile [] EOF"
  by (simp add: run_defs2)

text \<open>
  The gzip reader over the source of a macOS archive: the repack opens it and never
  closes it, so one more of it is open after the repack than before.
\<close>

lemma gzip_reader_left_open:
  "balance (GzipReader ''go1.darwin-arm64.tar.gz'') (trace darwinWorld) = 0
   \<and> fst (repackSignedEntries noFaults darwinExample darwinWorld) = Done ()
   \<and> balance (GzipReader ''go1.darwin-arm64.tar.gz'')
        (trace (snd (repackSignedEntries noFaults darwinExample darwinWorld))) = 1"
  by (simp add: run_defs2 balance_simps)

end
